theory Spec2Isabelle
  imports Main "HOL-Library.Word" "HOL-Library.Monad_Syntax"
begin

unbundle bit_operations_syntax

section \<open>Data model of kernel/kcov.c\<close>

text \<open>
  The embedding fixes the LP64 data model of the 64-bit kernels: \<open>unsigned long\<close> and
  \<open>u64\<close> are both 64 bits wide, \<open>unsigned\<close> and \<open>int\<close> are 32 bits, so
  \<open>sizeof(unsigned long) = sizeof(u64) = 8\<close>. Pointers to \<open>struct kcov\<close>, to
  \<open>struct task_struct\<close> and to coverage areas are natural numbers used as addresses
  of an explicit store; \<open>NULL\<close> is \<open>None\<close>.
\<close>

type_synonym u8 = "8 word"
type_synonym u16 = "16 word"
type_synonym u32 = "32 word"
type_synonym u64 = "64 word"

type_synonym kcov_ptr = nat
type_synonym task_ptr = nat
type_synonym area_ptr = nat

text \<open>\<open>enum kcov_mode\<close> (declared in include/linux/kcov.h).\<close>

datatype kcov_mode =
    KCOV_MODE_DISABLED
  | KCOV_MODE_INIT
  | KCOV_MODE_TRACE_PC
  | KCOV_MODE_TRACE_CMP

text \<open>The error numbers the file returns (negated) from its entry points.\<close>

datatype errno = ENOMEM | EFAULT | EBUSY | EEXIST | EINVAL | ENOTTY | ENOTSUPP

text \<open>
  \<open>struct kcov\<close>. The fields keep their names behind the prefix \<open>k_\<close>
  (\<open>size\<close> and \<open>t\<close> cannot be field names here); the spinlock is not a field,
  every operation of the model runs as one critical section.
\<close>

record kcov =
  k_refcount :: u32
  k_mode :: kcov_mode
  k_size :: u32
  k_area :: "area_ptr option"
  k_t :: "task_ptr option"
  k_remote :: bool
  k_remote_size :: u32
  k_sequence :: u32

text \<open>The kcov fields of \<open>struct task_struct\<close>.\<close>

record task_struct =
  kcov_mode :: kcov_mode
  kcov_size :: u32
  kcov_area :: "area_ptr option"
  kcov :: "kcov_ptr option"
  kcov_sequence :: u32

text \<open>
  The global state: the heap of descriptors, the tasks, the vmalloc'ed areas (each a
  sequence of 64-bit words), the hash table \<open>kcov_remote_map\<close> and the free list
  \<open>kcov_remote_areas\<close>. The hash table is kept as one list of
  \<open>(handle, kcov)\<close> entries, newest first: \<open>hash_add\<close> puts an entry at the head
  of its bucket and a lookup compares handles, which all land in the same bucket when
  they are equal. A \<open>struct kcov_remote_area\<close> lives in the first bytes of the free
  area itself; the free list keeps the pointer and the size.
\<close>

record state =
  kcovs :: "kcov_ptr \<rightharpoonup> kcov"
  tasks :: "task_ptr \<Rightarrow> task_struct"
  mem :: "area_ptr \<rightharpoonup> u64 list"
  kcov_remote_map :: "(u64 \<times> kcov_ptr) list"
  kcov_remote_areas :: "(area_ptr \<times> u32) list"

text \<open>
  The build configuration and its one external query: \<open>CONFIG_RANDOMIZE_BASE\<close>
  with \<open>kaslr_offset()\<close>, and \<open>CONFIG_KCOV_ENABLE_COMPARISONS\<close>.
\<close>

record config =
  CONFIG_RANDOMIZE_BASE :: bool
  kaslr_offset :: u64
  CONFIG_KCOV_ENABLE_COMPARISONS :: bool

definition KCOV_WORDS_PER_CMP :: u64 where
  "KCOV_WORDS_PER_CMP = 4"

text \<open>\<open>sizeof(unsigned long)\<close> and \<open>sizeof(u64)\<close>.\<close>

definition sizeof_long :: u64 where
  "sizeof_long = 8"

definition sizeof_u64 :: u64 where
  "sizeof_u64 = 8"

subsection \<open>Access to an area\<close>

text \<open>
  \<open>area[i]\<close> read and written as a 64-bit word. A \<open>NULL\<close> or freed area and an
  index outside the allocation are faults of the C program: the result is \<open>None\<close>.
\<close>

definition area_read :: "state \<Rightarrow> area_ptr option \<Rightarrow> u64 \<Rightarrow> u64 option" where
  "area_read s area i =
     (case area of
        None \<Rightarrow> None
      | Some a \<Rightarrow>
          (case mem s a of
             None \<Rightarrow> None
           | Some buf \<Rightarrow> if unat i < length buf then Some (buf ! unat i) else None))"

definition area_write :: "area_ptr option \<Rightarrow> u64 \<Rightarrow> u64 \<Rightarrow> state \<Rightarrow> state option" where
  "area_write area i v s =
     (case area of
        None \<Rightarrow> None
      | Some a \<Rightarrow>
          (case mem s a of
             None \<Rightarrow> None
           | Some buf \<Rightarrow>
               if unat i < length buf
               then Some (s\<lparr>mem := (mem s)(a \<mapsto> buf[unat i := v])\<rparr>)
               else None))"

section \<open>Trace sinks\<close>

definition check_kcov_mode :: "bool \<Rightarrow> kcov_mode \<Rightarrow> task_struct \<Rightarrow> bool" where
  "check_kcov_mode in_task needed_mode t =
     (if \<not> in_task then False
      else let mode = kcov_mode t in mode = needed_mode)"

definition canonicalize_ip :: "config \<Rightarrow> u64 \<Rightarrow> u64" where
  "canonicalize_ip cfg ip =
     (if CONFIG_RANDOMIZE_BASE cfg then ip - kaslr_offset cfg else ip)"

text \<open>
  \<open>__sanitizer_cov_trace_pc\<close>: \<open>in_task\<close> is the value of \<open>in_task()\<close>,
  \<open>current\<close> the running task and \<open>RET_IP\<close> the caller's return address.
\<close>

definition sanitizer_cov_trace_pc ::
  "config \<Rightarrow> bool \<Rightarrow> task_ptr \<Rightarrow> u64 \<Rightarrow> state \<Rightarrow> state option" where
  "sanitizer_cov_trace_pc cfg in_task current RET_IP s =
     (let ip = canonicalize_ip cfg RET_IP;
          t = tasks s current
      in if \<not> check_kcov_mode in_task KCOV_MODE_TRACE_PC t then Some s
         else
           let area = kcov_area t in
           do {
             count \<leftarrow> area_read s area 0;
             let pos = count + 1;
             if pos < ucast (kcov_size t)
             then do {
               s1 \<leftarrow> area_write area pos ip s;
               area_write area 0 pos s1
             }
             else Some s
           })"

text \<open>A sequence of PC sink calls made by one task in task context, in call order.\<close>

fun trace_pc_calls :: "config \<Rightarrow> task_ptr \<Rightarrow> u64 list \<Rightarrow> state \<Rightarrow> state option" where
  "trace_pc_calls cfg current [] s = Some s"
| "trace_pc_calls cfg current (ip # ips) s =
     (case sanitizer_cov_trace_pc cfg True current ip s of
        None \<Rightarrow> None
      | Some s1 \<Rightarrow> trace_pc_calls cfg current ips s1)"

definition write_comp_data ::
  "config \<Rightarrow> bool \<Rightarrow> task_ptr \<Rightarrow> u64 \<Rightarrow> u64 \<Rightarrow> u64 \<Rightarrow> u64 \<Rightarrow> state \<Rightarrow> state option" where
  "write_comp_data cfg in_task current type arg1 arg2 ip0 s =
     (let t = tasks s current
      in if \<not> check_kcov_mode in_task KCOV_MODE_TRACE_CMP t then Some s
         else
           let ip = canonicalize_ip cfg ip0;
               area = kcov_area t;
               max_pos = ucast (kcov_size t) * sizeof_long
           in do {
             count \<leftarrow> area_read s area 0;
             let start_index = 1 + count * KCOV_WORDS_PER_CMP;
             let end_pos = (start_index + KCOV_WORDS_PER_CMP) * sizeof_u64;
             if end_pos \<le> max_pos
             then do {
               s1 \<leftarrow> area_write area start_index type s;
               s2 \<leftarrow> area_write area (start_index + 1) arg1 s1;
               s3 \<leftarrow> area_write area (start_index + 2) arg2 s2;
               s4 \<leftarrow> area_write area (start_index + 3) ip s3;
               area_write area 0 (count + 1) s4
             }
             else Some s
           })"

text \<open>A sequence of \<open>write_comp_data\<close> calls \<open>(type, arg1, arg2, ip)\<close> made by
  one task in task context, in call order.\<close>

fun write_comp_data_calls ::
  "config \<Rightarrow> task_ptr \<Rightarrow> (u64 \<times> u64 \<times> u64 \<times> u64) list \<Rightarrow> state \<Rightarrow> state option" where
  "write_comp_data_calls cfg current [] s = Some s"
| "write_comp_data_calls cfg current ((type, arg1, arg2, ip) # rs) s =
     (case write_comp_data cfg True current type arg1 arg2 ip s of
        None \<Rightarrow> None
      | Some s1 \<Rightarrow> write_comp_data_calls cfg current rs s1)"

text \<open>The four words \<open>write_comp_data\<close> stores for one call.\<close>

definition cmp_record :: "config \<Rightarrow> u64 \<times> u64 \<times> u64 \<times> u64 \<Rightarrow> u64 list" where
  "cmp_record cfg r =
     (case r of (type, arg1, arg2, ip) \<Rightarrow> [type, arg1, arg2, canonicalize_ip cfg ip])"

text \<open>
  Modelled from the spec: the record-layout constants of include/uapi/linux/kcov.h,
  which is not part of the sources at hand: \<open>CMP_SIZE(k) = k << 1\<close> and
  \<open>CMP_CONST\<close> is bit 0.
\<close>

definition KCOV_CMP_CONST :: u64 where
  "KCOV_CMP_CONST = 1"

definition KCOV_CMP_SIZE :: "u64 \<Rightarrow> u64" where
  "KCOV_CMP_SIZE n = push_bit 1 n"

definition sanitizer_cov_trace_cmp1 ::
  "config \<Rightarrow> bool \<Rightarrow> task_ptr \<Rightarrow> u8 \<Rightarrow> u8 \<Rightarrow> u64 \<Rightarrow> state \<Rightarrow> state option" where
  "sanitizer_cov_trace_cmp1 cfg in_task current arg1 arg2 RET_IP =
     write_comp_data cfg in_task current (KCOV_CMP_SIZE 0) (ucast arg1) (ucast arg2) RET_IP"

definition sanitizer_cov_trace_cmp2 ::
  "config \<Rightarrow> bool \<Rightarrow> task_ptr \<Rightarrow> u16 \<Rightarrow> u16 \<Rightarrow> u64 \<Rightarrow> state \<Rightarrow> state option" where
  "sanitizer_cov_trace_cmp2 cfg in_task current arg1 arg2 RET_IP =
     write_comp_data cfg in_task current (KCOV_CMP_SIZE 1) (ucast arg1) (ucast arg2) RET_IP"

definition sanitizer_cov_trace_cmp4 ::
  "config \<Rightarrow> bool \<Rightarrow> task_ptr \<Rightarrow> u32 \<Rightarrow> u32 \<Rightarrow> u64 \<Rightarrow> state \<Rightarrow> state option" where
  "sanitizer_cov_trace_cmp4 cfg in_task current arg1 arg2 RET_IP =
     write_comp_data cfg in_task current (KCOV_CMP_SIZE 2) (ucast arg1) (ucast arg2) RET_IP"

definition sanitizer_cov_trace_cmp8 ::
  "config \<Rightarrow> bool \<Rightarrow> task_ptr \<Rightarrow> u64 \<Rightarrow> u64 \<Rightarrow> u64 \<Rightarrow> state \<Rightarrow> state option" where
  "sanitizer_cov_trace_cmp8 cfg in_task current arg1 arg2 RET_IP =
     write_comp_data cfg in_task current (KCOV_CMP_SIZE 3) arg1 arg2 RET_IP"

definition sanitizer_cov_trace_const_cmp1 ::
  "config \<Rightarrow> bool \<Rightarrow> task_ptr \<Rightarrow> u8 \<Rightarrow> u8 \<Rightarrow> u64 \<Rightarrow> state \<Rightarrow> state option" where
  "sanitizer_cov_trace_const_cmp1 cfg in_task current arg1 arg2 RET_IP =
     write_comp_data cfg in_task current (KCOV_CMP_SIZE 0 OR KCOV_CMP_CONST)
       (ucast arg1) (ucast arg2) RET_IP"

definition sanitizer_cov_trace_const_cmp2 ::
  "config \<Rightarrow> bool \<Rightarrow> task_ptr \<Rightarrow> u16 \<Rightarrow> u16 \<Rightarrow> u64 \<Rightarrow> state \<Rightarrow> state option" where
  "sanitizer_cov_trace_const_cmp2 cfg in_task current arg1 arg2 RET_IP =
     write_comp_data cfg in_task current (KCOV_CMP_SIZE 1 OR KCOV_CMP_CONST)
       (ucast arg1) (ucast arg2) RET_IP"

definition sanitizer_cov_trace_const_cmp4 ::
  "config \<Rightarrow> bool \<Rightarrow> task_ptr \<Rightarrow> u32 \<Rightarrow> u32 \<Rightarrow> u64 \<Rightarrow> state \<Rightarrow> state option" where
  "sanitizer_cov_trace_const_cmp4 cfg in_task current arg1 arg2 RET_IP =
     write_comp_data cfg in_task current (KCOV_CMP_SIZE 2 OR KCOV_CMP_CONST)
       (ucast arg1) (ucast arg2) RET_IP"

definition sanitizer_cov_trace_const_cmp8 ::
  "config \<Rightarrow> bool \<Rightarrow> task_ptr \<Rightarrow> u64 \<Rightarrow> u64 \<Rightarrow> u64 \<Rightarrow> state \<Rightarrow> state option" where
  "sanitizer_cov_trace_const_cmp8 cfg in_task current arg1 arg2 RET_IP =
     write_comp_data cfg in_task current (KCOV_CMP_SIZE 3 OR KCOV_CMP_CONST)
       arg1 arg2 RET_IP"

text \<open>
  The loop of \<open>__sanitizer_cov_trace_switch\<close>: one record per case label, stopping
  at the first fault.
\<close>

fun trace_switch_loop ::
  "config \<Rightarrow> bool \<Rightarrow> task_ptr \<Rightarrow> u64 \<Rightarrow> u64 \<Rightarrow> u64 \<Rightarrow> u64 list \<Rightarrow> state \<Rightarrow> state option" where
  "trace_switch_loop cfg in_task current type val RET_IP [] s = Some s"
| "trace_switch_loop cfg in_task current type val RET_IP (c # cs) s =
     (case write_comp_data cfg in_task current type c val RET_IP s of
        None \<Rightarrow> None
      | Some s1 \<Rightarrow> trace_switch_loop cfg in_task current type val RET_IP cs s1)"

text \<open>
  \<open>__sanitizer_cov_trace_switch\<close>: \<open>cases\<close> is the table the compiler emits,
  \<open>cases[0]\<close> the number of labels, \<open>cases[1]\<close> their width in bits and the labels
  from \<open>cases[2]\<close> on; a table shorter than two words is a fault. The loop visits
  \<open>cases[2 .. 2 + count)\<close>, which for a table as the compiler emits it are the
  \<open>count\<close> labels.
\<close>

definition sanitizer_cov_trace_switch ::
  "config \<Rightarrow> bool \<Rightarrow> task_ptr \<Rightarrow> u64 \<Rightarrow> u64 list \<Rightarrow> u64 \<Rightarrow> state \<Rightarrow> state option" where
  "sanitizer_cov_trace_switch cfg in_task current val cases RET_IP s =
     (if length cases < 2 then None
      else
        let count = cases ! 0;
            size = cases ! 1;
            type = KCOV_CMP_CONST
        in if size = 8 then
             trace_switch_loop cfg in_task current (type OR KCOV_CMP_SIZE 0) val RET_IP
               (take (unat count) (drop 2 cases)) s
           else if size = 16 then
             trace_switch_loop cfg in_task current (type OR KCOV_CMP_SIZE 1) val RET_IP
               (take (unat count) (drop 2 cases)) s
           else if size = 32 then
             trace_switch_loop cfg in_task current (type OR KCOV_CMP_SIZE 2) val RET_IP
               (take (unat count) (drop 2 cases)) s
           else if size = 64 then
             trace_switch_loop cfg in_task current (type OR KCOV_CMP_SIZE 3) val RET_IP
               (take (unat count) (drop 2 cases)) s
           else Some s)"

section \<open>Descriptor, remote registry and control plane\<close>

definition kcov_remote_find :: "state \<Rightarrow> u64 \<Rightarrow> (u64 \<times> kcov_ptr) option" where
  "kcov_remote_find s handle = find (\<lambda>remote. fst remote = handle) (kcov_remote_map s)"

text \<open>
  \<open>kcov_remote_area_get\<close>: the first free area of the wanted size is unlinked and
  returned, \<open>NULL\<close> when there is none.
\<close>

definition kcov_remote_area_get :: "u32 \<Rightarrow> state \<Rightarrow> area_ptr option \<times> state" where
  "kcov_remote_area_get size' s =
     (case find (\<lambda>area. snd area = size') (kcov_remote_areas s) of
        None \<Rightarrow> (None, s)
      | Some area \<Rightarrow>
          (Some (fst area), s\<lparr>kcov_remote_areas := remove1 area (kcov_remote_areas s)\<rparr>))"

text \<open>
  \<open>kcov_remote_area_put\<close> writes the list node into the area: a \<open>NULL\<close> or freed
  area is a fault. The words the node overlays are dead, the count is zeroed again
  before the area is reused; the model leaves the contents as they are.
\<close>

definition kcov_remote_area_put :: "area_ptr option \<Rightarrow> u32 \<Rightarrow> state \<Rightarrow> state option" where
  "kcov_remote_area_put area size' s =
     (case area of
        None \<Rightarrow> None
      | Some a \<Rightarrow>
          if mem s a = None then None
          else Some (s\<lparr>kcov_remote_areas := (a, size') # kcov_remote_areas s\<rparr>))"

definition kcov_start ::
  "task_ptr \<Rightarrow> u32 \<Rightarrow> area_ptr option \<Rightarrow> kcov_mode \<Rightarrow> u32 \<Rightarrow> state \<Rightarrow> state" where
  "kcov_start t size' area mode sequence s =
     s\<lparr>tasks := (tasks s)(t := (tasks s t)
          \<lparr>kcov_size := size', kcov_area := area, kcov_mode := mode,
           kcov_sequence := sequence\<rparr>)\<rparr>"

definition kcov_stop :: "task_ptr \<Rightarrow> state \<Rightarrow> state" where
  "kcov_stop t s =
     s\<lparr>tasks := (tasks s)(t := (tasks s t)
          \<lparr>kcov_mode := KCOV_MODE_DISABLED, kcov_size := 0, kcov_area := None\<rparr>)\<rparr>"

definition kcov_task_init :: "task_ptr \<Rightarrow> state \<Rightarrow> state" where
  "kcov_task_init t s =
     (let s1 = kcov_stop t s
      in s1\<lparr>tasks := (tasks s1)(t := (tasks s1 t)\<lparr>kcov := None, kcov_sequence := 0\<rparr>)\<rparr>)"

text \<open>A dereference of a \<open>struct kcov\<close> pointer that is not allocated is a fault.\<close>

definition kcov_reset :: "kcov_ptr \<Rightarrow> state \<Rightarrow> state option" where
  "kcov_reset kp s =
     (case kcovs s kp of
        None \<Rightarrow> None
      | Some k \<Rightarrow>
          Some (s\<lparr>kcovs := (kcovs s)(kp \<mapsto> k
                  \<lparr>k_t := None, k_mode := KCOV_MODE_INIT, k_remote := False,
                   k_remote_size := 0, k_sequence := k_sequence k + 1\<rparr>)\<rparr>))"

definition kcov_remote_reset :: "kcov_ptr \<Rightarrow> state \<Rightarrow> state option" where
  "kcov_remote_reset kp s =
     kcov_reset kp
       (s\<lparr>kcov_remote_map := filter (\<lambda>remote. snd remote \<noteq> kp) (kcov_remote_map s)\<rparr>)"

definition kcov_get :: "kcov_ptr \<Rightarrow> state \<Rightarrow> state option" where
  "kcov_get kp s =
     (case kcovs s kp of
        None \<Rightarrow> None
      | Some k \<Rightarrow> Some (s\<lparr>kcovs := (kcovs s)(kp \<mapsto> k\<lparr>k_refcount := k_refcount k + 1\<rparr>)\<rparr>))"

text \<open>\<open>vfree\<close>: freeing \<open>NULL\<close> does nothing.\<close>

definition vfree :: "area_ptr option \<Rightarrow> state \<Rightarrow> state" where
  "vfree area s = (case area of None \<Rightarrow> s | Some a \<Rightarrow> s\<lparr>mem := (mem s)(a := None)\<rparr>)"

definition kcov_put :: "kcov_ptr \<Rightarrow> state \<Rightarrow> state option" where
  "kcov_put kp s =
     (case kcovs s kp of
        None \<Rightarrow> None
      | Some k \<Rightarrow>
          let s1 = s\<lparr>kcovs := (kcovs s)(kp \<mapsto> k\<lparr>k_refcount := k_refcount k - 1\<rparr>)\<rparr>
          in if k_refcount k - 1 = 0
             then do {
               s2 \<leftarrow> kcov_remote_reset kp s1;
               k2 \<leftarrow> kcovs s2 kp;
               let s3 = vfree (k_area k2) s2;
               Some (s3\<lparr>kcovs := (kcovs s3)(kp := None)\<rparr>)
             }
             else Some s1)"

definition kcov_task_exit :: "task_ptr \<Rightarrow> state \<Rightarrow> state option" where
  "kcov_task_exit t s =
     (case kcov (tasks s t) of
        None \<Rightarrow> Some s
      | Some kp \<Rightarrow>
          do {
            k \<leftarrow> kcovs s kp;
            if k_t k \<noteq> Some t then Some s
            else do {
              let s1 = kcov_task_init t s;
              s2 \<leftarrow> (if k_remote k then kcov_remote_reset kp s1 else kcov_reset kp s1);
              kcov_put kp s2
            }
          })"

text \<open>
  \<open>kcov_mmap\<close>: \<open>vm_pgoff\<close> and \<open>vm_len = vm_end - vm_start\<close> describe the
  mapping asked for; \<open>vmalloc_user\<close> is the allocator's answer, \<open>None\<close> when it
  fails and otherwise the address of a zeroed region of \<open>vm_len\<close> bytes. Inserting
  the pages into the caller's address space belongs to the memory manager.
\<close>

definition kcov_mmap ::
  "kcov_ptr \<Rightarrow> u64 \<Rightarrow> u64 \<Rightarrow> area_ptr option \<Rightarrow> state \<Rightarrow> ((errno + unit) \<times> state) option" where
  "kcov_mmap kp vm_pgoff vm_len vmalloc_user s =
     (case vmalloc_user of
        None \<Rightarrow> Some (Inl ENOMEM, s)
      | Some area \<Rightarrow>
          let s1 = s\<lparr>mem := (mem s)(area \<mapsto> replicate (unat (vm_len div 8)) 0)\<rparr>
          in do {
            k \<leftarrow> kcovs s1 kp;
            let size = ucast (k_size k) * sizeof_long;
            if k_mode k \<noteq> KCOV_MODE_INIT \<or> vm_pgoff \<noteq> 0 \<or> vm_len \<noteq> size
            then Some (Inl EINVAL, vfree (Some area) s1)
            else if k_area k = None
            then Some (Inr (), s1\<lparr>kcovs := (kcovs s1)(kp \<mapsto> k\<lparr>k_area := Some area\<rparr>)\<rparr>)
            else Some (Inr (), vfree (Some area) s1)
          })"

text \<open>\<open>kcov_open\<close>: \<open>kzalloc\<close> is the allocator's answer; the new descriptor is
  what \<open>filep->private_data\<close> is set to.\<close>

definition kcov_open :: "kcov_ptr option \<Rightarrow> state \<Rightarrow> (errno + kcov_ptr) \<times> state" where
  "kcov_open kzalloc s =
     (case kzalloc of
        None \<Rightarrow> (Inl ENOMEM, s)
      | Some kp \<Rightarrow>
          (Inr kp,
           s\<lparr>kcovs := (kcovs s)(kp \<mapsto>
               \<lparr>k_refcount = 1, k_mode = KCOV_MODE_DISABLED, k_size = 0, k_area = None,
                k_t = None, k_remote = False, k_remote_size = 0, k_sequence = 1\<rparr>)\<rparr>))"

definition kcov_close :: "kcov_ptr \<Rightarrow> state \<Rightarrow> ((errno + unit) \<times> state) option" where
  "kcov_close kp s = do { s1 \<leftarrow> kcov_put kp s; Some (Inr (), s1) }"

text \<open>
  Modelled from the spec: the request codes and the trace-mode values of
  include/uapi/linux/kcov.h, which is not part of the sources at hand. The modes are
  \<open>PC = 0\<close> and \<open>CMP = 1\<close>; a request that is none of the four is
  \<open>KCOV_OTHER\<close> with its number.
\<close>

datatype ioctl_cmd =
    KCOV_INIT_TRACE
  | KCOV_ENABLE
  | KCOV_DISABLE
  | KCOV_REMOTE_ENABLE
  | KCOV_OTHER u32

definition KCOV_TRACE_PC :: u64 where
  "KCOV_TRACE_PC = 0"

definition KCOV_TRACE_CMP :: u64 where
  "KCOV_TRACE_CMP = 1"

text \<open>
  Modelled from the spec: \<open>struct kcov_remote_arg\<close> of the same header, the request
  \<open>{trace_mode, area_size, num_handles, handles[num_handles]}\<close>, with the
  \<open>unused\<close> field that \<open>kcov_ioctl\<close> wants zero. \<open>kcov_ioctl\<close> copies the
  request from user space with exactly \<open>num_handles\<close> handles before it takes the
  lock and calls \<open>kcov_ioctl_locked\<close>.
\<close>

record kcov_remote_arg =
  trace_mode :: u32
  area_size :: u32
  num_handles :: u32
  unused :: u32
  handles :: "u64 list"

definition kcov_get_mode :: "config \<Rightarrow> u64 \<Rightarrow> errno + kcov_mode" where
  "kcov_get_mode cfg arg =
     (if arg = KCOV_TRACE_PC then Inr KCOV_MODE_TRACE_PC
      else if arg = KCOV_TRACE_CMP then
        (if CONFIG_KCOV_ENABLE_COMPARISONS cfg then Inr KCOV_MODE_TRACE_CMP
         else Inl ENOTSUPP)
      else Inl EINVAL)"

definition INT_MAX :: u64 where
  "INT_MAX = 2147483647"

text \<open>
  The loop of \<open>KCOV_REMOTE_ENABLE\<close> over \<open>handles[i]\<close>, \<open>i\<close> from the given
  index: \<open>kmalloc\<close> tells whether the allocation of the \<open>i\<close>-th entry succeeds.
\<close>

fun remote_enable_loop ::
  "kcov_ptr \<Rightarrow> (nat \<Rightarrow> bool) \<Rightarrow> nat \<Rightarrow> u64 list \<Rightarrow> state \<Rightarrow> ((errno + unit) \<times> state) option" where
  "remote_enable_loop kp kmalloc i [] s = Some (Inr (), s)"
| "remote_enable_loop kp kmalloc i (h # hs) s =
     (if kcov_remote_find s h \<noteq> None
      then do { s1 \<leftarrow> kcov_remote_reset kp s; Some (Inl EEXIST, s1) }
      else if \<not> kmalloc i
      then do { s1 \<leftarrow> kcov_remote_reset kp s; Some (Inl ENOMEM, s1) }
      else remote_enable_loop kp kmalloc (Suc i) hs
             (s\<lparr>kcov_remote_map := (h, kp) # kcov_remote_map s\<rparr>))"

text \<open>
  \<open>kcov_ioctl_locked\<close>: \<open>arg\<close> is the argument word, \<open>remote_arg\<close> what it
  points to for \<open>KCOV_REMOTE_ENABLE\<close>, \<open>current\<close> the calling task. The result
  is the return value (\<open>Inr ()\<close> for 0, \<open>Inl e\<close> for \<open>-e\<close>) and the new state.
\<close>

definition kcov_ioctl_locked ::
  "config \<Rightarrow> task_ptr \<Rightarrow> (nat \<Rightarrow> bool) \<Rightarrow> kcov_ptr \<Rightarrow> ioctl_cmd \<Rightarrow> u64 \<Rightarrow> kcov_remote_arg
     \<Rightarrow> state \<Rightarrow> ((errno + unit) \<times> state) option" where
  "kcov_ioctl_locked cfg current kmalloc kp cmd arg remote_arg s =
     (case kcovs s kp of
        None \<Rightarrow> None
      | Some k \<Rightarrow>
          (case cmd of
             KCOV_INIT_TRACE \<Rightarrow>
               if k_mode k \<noteq> KCOV_MODE_DISABLED then Some (Inl EBUSY, s)
               else
                 let size = arg in
                 if size < 2 \<or> size > INT_MAX div sizeof_long then Some (Inl EINVAL, s)
                 else Some (Inr (),
                        s\<lparr>kcovs := (kcovs s)(kp \<mapsto> k\<lparr>k_size := ucast size,
                             k_mode := KCOV_MODE_INIT\<rparr>)\<rparr>)
           | KCOV_ENABLE \<Rightarrow>
               if k_mode k \<noteq> KCOV_MODE_INIT \<or> k_area k = None then Some (Inl EINVAL, s)
               else
                 let t = current in
                 if k_t k \<noteq> None \<or> kcov (tasks s t) \<noteq> None then Some (Inl EBUSY, s)
                 else
                   (case kcov_get_mode cfg arg of
                      Inl e \<Rightarrow> Some (Inl e, s)
                    | Inr mode \<Rightarrow>
                        let s1 = s\<lparr>kcovs := (kcovs s)(kp \<mapsto> k\<lparr>k_mode := mode\<rparr>)\<rparr>;
                            s2 = kcov_start t (k_size k) (k_area k) mode (k_sequence k) s1;
                            s3 = s2\<lparr>tasks := (tasks s2)(t := (tasks s2 t)\<lparr>kcov := Some kp\<rparr>)\<rparr>;
                            s4 = s3\<lparr>kcovs := (kcovs s3)(kp \<mapsto>
                                   k\<lparr>k_mode := mode, k_t := Some t\<rparr>)\<rparr>
                        in do { s5 \<leftarrow> kcov_get kp s4; Some (Inr (), s5) })
           | KCOV_DISABLE \<Rightarrow>
               let unused = arg in
               if unused \<noteq> 0 \<or> kcov (tasks s current) \<noteq> Some kp then Some (Inl EINVAL, s)
               else
                 let t = current in
                 if k_t k \<noteq> Some t then Some (Inl EINVAL, s)
                 else do {
                   let s1 = kcov_task_init t s;
                   s2 \<leftarrow> (if k_remote k then kcov_remote_reset kp s1 else kcov_reset kp s1);
                   s3 \<leftarrow> kcov_put kp s2;
                   Some (Inr (), s3)
                 }
           | KCOV_REMOTE_ENABLE \<Rightarrow>
               if k_mode k \<noteq> KCOV_MODE_INIT \<or> k_area k = None then Some (Inl EINVAL, s)
               else
                 let t = current in
                 if k_t k \<noteq> None \<or> kcov (tasks s t) \<noteq> None then Some (Inl EBUSY, s)
                 else
                   (case kcov_get_mode cfg (ucast (trace_mode remote_arg)) of
                      Inl e \<Rightarrow> Some (Inl e, s)
                    | Inr mode \<Rightarrow>
                        let s1 = s\<lparr>tasks := (tasks s)(t := (tasks s t)\<lparr>kcov := Some kp\<rparr>)\<rparr>;
                            s2 = s1\<lparr>kcovs := (kcovs s1)(kp \<mapsto>
                                   k\<lparr>k_mode := mode, k_t := Some t, k_remote := True,
                                     k_remote_size := area_size remote_arg\<rparr>)\<rparr>
                        in do {
                          (res, s3) \<leftarrow> remote_enable_loop kp kmalloc 0
                             (take (unat (num_handles remote_arg)) (handles remote_arg)) s2;
                          (case res of
                             Inl e \<Rightarrow> Some (Inl e, s3)
                           | Inr _ \<Rightarrow> do { s4 \<leftarrow> kcov_get kp s3; Some (Inr (), s4) })
                        })
           | KCOV_OTHER n \<Rightarrow> Some (Inl ENOTTY, s)))"

section \<open>Remote collection window and merge\<close>

text \<open>
  \<open>memcpy(dst + dst_off, src + src_off, n)\<close> with byte offsets into two areas.
  Every offset and length \<open>kcov_move_area\<close> computes is a multiple of 8, so the
  copy moves whole 64-bit words; a copy that leaves either allocation, or from an area
  to itself, is a fault.
\<close>

definition area_memcpy ::
  "area_ptr option \<Rightarrow> u64 \<Rightarrow> area_ptr option \<Rightarrow> u64 \<Rightarrow> u64 \<Rightarrow> state \<Rightarrow> state option" where
  "area_memcpy dst dst_off src src_off n s =
     (case (dst, src) of
        (Some d, Some a) \<Rightarrow>
          (case (mem s d, mem s a) of
             (Some dbuf, Some sbuf) \<Rightarrow>
               if d \<noteq> a \<and> 8 dvd unat dst_off \<and> 8 dvd unat src_off \<and> 8 dvd unat n
                  \<and> unat dst_off + unat n \<le> 8 * length dbuf
                  \<and> unat src_off + unat n \<le> 8 * length sbuf
               then Some (s\<lparr>mem := (mem s)(d \<mapsto>
                      take (unat dst_off div 8) dbuf
                      @ take (unat n div 8) (drop (unat src_off div 8) sbuf)
                      @ drop (unat dst_off div 8 + unat n div 8) dbuf)\<rparr>)
               else None
           | _ \<Rightarrow> None)
      | _ \<Rightarrow> None)"

text \<open>The part of \<open>kcov_move_area\<close> after the first \<open>switch\<close>, which both modes
  share; the second \<open>switch\<close> stores the new count as a 64-bit word in either mode.\<close>

definition move_entries ::
  "area_ptr option \<Rightarrow> u32 \<Rightarrow> area_ptr option \<Rightarrow> u64 \<Rightarrow> u64 \<Rightarrow> u64 \<Rightarrow> u64 \<Rightarrow> state
     \<Rightarrow> state option" where
  "move_entries dst_area dst_area_size src_area dst_len src_len count_size entry_size s =
     (let word_size = sizeof_long in
      if dst_len > (ucast dst_area_size * word_size - count_size) div entry_size then Some s
      else
        let dst_occupied = count_size + dst_len * entry_size;
            dst_free = ucast dst_area_size * word_size - dst_occupied;
            bytes_to_move = min dst_free (src_len * entry_size)
        in do {
          s1 \<leftarrow> area_memcpy dst_area dst_occupied src_area count_size bytes_to_move s;
          let entries_moved = bytes_to_move div entry_size;
          area_write dst_area 0 (dst_len + entries_moved) s1
        })"

definition kcov_move_area ::
  "kcov_mode \<Rightarrow> area_ptr option \<Rightarrow> u32 \<Rightarrow> area_ptr option \<Rightarrow> state \<Rightarrow> state option" where
  "kcov_move_area mode dst_area dst_area_size src_area s =
     (case mode of
        KCOV_MODE_TRACE_PC \<Rightarrow>
          do {
            dst_len \<leftarrow> area_read s dst_area 0;
            src_len \<leftarrow> area_read s src_area 0;
            move_entries dst_area dst_area_size src_area dst_len src_len
              sizeof_long sizeof_long s
          }
      | KCOV_MODE_TRACE_CMP \<Rightarrow>
          do {
            dst_len \<leftarrow> area_read s dst_area 0;
            src_len \<leftarrow> area_read s src_area 0;
            move_entries dst_area dst_area_size src_area dst_len src_len
              sizeof_u64 (sizeof_u64 * KCOV_WORDS_PER_CMP) s
          }
      | _ \<Rightarrow> Some s)"

text \<open>
  \<open>kcov_remote_start\<close>: \<open>vmalloc\<close> is the allocator's answer should the free
  list have no area of the wanted size, \<open>None\<close> when it fails and otherwise the
  address of the new region with the words it happens to hold.
\<close>

definition kcov_remote_start ::
  "bool \<Rightarrow> task_ptr \<Rightarrow> (area_ptr \<times> u64 list) option \<Rightarrow> u64 \<Rightarrow> state \<Rightarrow> state option" where
  "kcov_remote_start in_task current vmalloc handle s =
     (if \<not> in_task then Some s
      else
        let t = current in
        if kcov (tasks s t) \<noteq> None then Some s
        else
          (case kcov_remote_find s handle of
             None \<Rightarrow> Some s
           | Some remote \<Rightarrow>
               do {
                 s1 \<leftarrow> kcov_get (snd remote) s;
                 let s2 = s1\<lparr>tasks := (tasks s1)(t := (tasks s1 t)\<lparr>kcov := Some (snd remote)\<rparr>)\<rparr>;
                 k \<leftarrow> kcovs s2 (snd remote);
                 let size = k_remote_size k;
                 let mode = k_mode k;
                 let sequence = k_sequence k;
                 let (area, s3) = kcov_remote_area_get size s2;
                 (case area of
                    None \<Rightarrow>
                      (case vmalloc of
                         None \<Rightarrow> kcov_put (snd remote) s3
                       | Some (a, contents) \<Rightarrow>
                           do {
                             s4 \<leftarrow> area_write (Some a) 0 0 (s3\<lparr>mem := (mem s3)(a \<mapsto> contents)\<rparr>);
                             Some (kcov_start t size (Some a) mode sequence s4)
                           })
                  | Some a \<Rightarrow>
                      do {
                        s4 \<leftarrow> area_write (Some a) 0 0 s3;
                        Some (kcov_start t size (Some a) mode sequence s4)
                      })
               }))"

definition kcov_remote_stop :: "task_ptr \<Rightarrow> state \<Rightarrow> state option" where
  "kcov_remote_stop current s =
     (let t = current;
          kcov = kcov (tasks s t);
          area = kcov_area (tasks s t);
          size = kcov_size (tasks s t);
          sequence = kcov_sequence (tasks s t)
      in case kcov of
           None \<Rightarrow> Some s
         | Some kp \<Rightarrow>
             do {
               let s1 = kcov_stop t s;
               let s2 = s1\<lparr>tasks := (tasks s1)(t := (tasks s1 t)\<lparr>kcov := None\<rparr>)\<rparr>;
               k \<leftarrow> kcovs s2 kp;
               s3 \<leftarrow> (if sequence = k_sequence k \<and> k_remote k
                      then kcov_move_area (k_mode k) (k_area k) (k_size k) area s2
                      else Some s2);
               s4 \<leftarrow> kcov_remote_area_put area size s3;
               kcov_put kp s4
             })"

section \<open>Transition system\<close>

text \<open>
  The calls that change the state, each with the task that makes it and the answers of
  the allocators: the file operations, the two task hooks, the remote window, the
  sinks, and a store by user space through the shared mapping of a descriptor's buffer.
  Events are not restricted to the call protocol (a file may be released twice, a
  window ended that was never started), so the states \<open>run\<close> reaches from
  \<open>boot_state\<close> include every state the kernel can be in.
\<close>

datatype event =
    Open "kcov_ptr option"
  | Close kcov_ptr
  | Mmap kcov_ptr u64 u64 "area_ptr option"
  | Ioctl task_ptr "nat \<Rightarrow> bool" kcov_ptr ioctl_cmd u64 kcov_remote_arg
  | Task_exit task_ptr
  | Remote_start bool task_ptr "(area_ptr \<times> u64 list) option" u64
  | Remote_stop task_ptr
  | Trace_pc bool task_ptr u64
  | Trace_cmp bool task_ptr u64 u64 u64 u64
  | Trace_switch bool task_ptr u64 "u64 list" u64
  | User_store kcov_ptr u64 u64

fun exec :: "config \<Rightarrow> event \<Rightarrow> state \<Rightarrow> state option" where
  "exec cfg (Open kzalloc) s = Some (snd (kcov_open kzalloc s))"
| "exec cfg (Close kp) s = map_option snd (kcov_close kp s)"
| "exec cfg (Mmap kp vm_pgoff vm_len vmalloc_user) s =
     map_option snd (kcov_mmap kp vm_pgoff vm_len vmalloc_user s)"
| "exec cfg (Ioctl current kmalloc kp cmd arg remote_arg) s =
     map_option snd (kcov_ioctl_locked cfg current kmalloc kp cmd arg remote_arg s)"
| "exec cfg (Task_exit t) s = kcov_task_exit t s"
| "exec cfg (Remote_start in_task current vmalloc handle) s =
     kcov_remote_start in_task current vmalloc handle s"
| "exec cfg (Remote_stop current) s = kcov_remote_stop current s"
| "exec cfg (Trace_pc in_task current RET_IP) s =
     sanitizer_cov_trace_pc cfg in_task current RET_IP s"
| "exec cfg (Trace_cmp in_task current type arg1 arg2 RET_IP) s =
     write_comp_data cfg in_task current type arg1 arg2 RET_IP s"
| "exec cfg (Trace_switch in_task current val cases RET_IP) s =
     sanitizer_cov_trace_switch cfg in_task current val cases RET_IP s"
| "exec cfg (User_store kp i v) s =
     (case kcovs s kp of None \<Rightarrow> None | Some k \<Rightarrow> area_write (k_area k) i v s)"

fun run :: "config \<Rightarrow> event list \<Rightarrow> state \<Rightarrow> state option" where
  "run cfg [] s = Some s"
| "run cfg (ev # evs) s =
     (case exec cfg ev s of None \<Rightarrow> None | Some s1 \<Rightarrow> run cfg evs s1)"

text \<open>
  The invariant that ties the owner to the mode: a descriptor that has an owner is in
  one of the two trace modes.
\<close>

definition desc_ok :: "kcov \<Rightarrow> bool" where
  "desc_ok k =
     (k_t k = None \<or> k_mode k = KCOV_MODE_TRACE_PC \<or> k_mode k = KCOV_MODE_TRACE_CMP)"

definition JK :: "(kcov_ptr \<rightharpoonup> kcov) \<Rightarrow> bool" where
  "JK m = (\<forall>kp k. m kp = Some k \<longrightarrow> desc_ok k)"

section \<open>Example states\<close>

text \<open>
  Concrete states for the closed theorems below. \<open>boot_state\<close> has no descriptor and
  no collecting task. Each later state is what the calls named in its comment leave
  behind, which the \<open>reach\<close> lemmas check by running the calls.
\<close>

definition cfg0 :: config where
  "cfg0 = \<lparr>CONFIG_RANDOMIZE_BASE = True, kaslr_offset = 0x1000,
           CONFIG_KCOV_ENABLE_COMPARISONS = True\<rparr>"

definition idle_task :: task_struct where
  "idle_task = \<lparr>kcov_mode = KCOV_MODE_DISABLED, kcov_size = 0, kcov_area = None,
                kcov = None, kcov_sequence = 0\<rparr>"

definition boot_state :: state where
  "boot_state = \<lparr>kcovs = Map.empty, tasks = (\<lambda>t. idle_task), mem = Map.empty,
                 kcov_remote_map = [], kcov_remote_areas = []\<rparr>"

text \<open>After \<open>open\<close> (descriptor 0), \<open>KCOV_INIT_TRACE(n)\<close> and \<open>mmap\<close> of
  \<open>8 * n\<close> bytes (area 0).\<close>

definition mapped_state :: "u32 \<Rightarrow> state" where
  "mapped_state n =
     \<lparr>kcovs = [0 \<mapsto> \<lparr>k_refcount = 1, k_mode = KCOV_MODE_INIT, k_size = n,
                       k_area = Some 0, k_t = None, k_remote = False,
                       k_remote_size = 0, k_sequence = 1\<rparr>],
      tasks = (\<lambda>t. idle_task),
      mem = [0 \<mapsto> replicate (unat n) 0],
      kcov_remote_map = [], kcov_remote_areas = []\<rparr>"

text \<open>After \<open>KCOV_ENABLE\<close> with the given mode by task 1 on \<open>mapped_state n\<close>.\<close>

definition enabled_state :: "u32 \<Rightarrow> kcov_mode \<Rightarrow> state" where
  "enabled_state n m =
     \<lparr>kcovs = [0 \<mapsto> \<lparr>k_refcount = 2, k_mode = m, k_size = n,
                       k_area = Some 0, k_t = Some 1, k_remote = False,
                       k_remote_size = 0, k_sequence = 1\<rparr>],
      tasks = (\<lambda>t. idle_task)(1 := \<lparr>kcov_mode = m, kcov_size = n, kcov_area = Some 0,
                                      kcov = Some 0, kcov_sequence = 1\<rparr>),
      mem = [0 \<mapsto> replicate (unat n) 0],
      kcov_remote_map = [], kcov_remote_areas = []\<rparr>"

text \<open>A request block for the calls that do not read one.\<close>

definition no_remote_arg :: kcov_remote_arg where
  "no_remote_arg = \<lparr>trace_mode = 0, area_size = 0, num_handles = 0, unused = 0, handles = []\<rparr>"

text \<open>A \<open>KCOV_REMOTE_ENABLE\<close> request for PC tracing with scratch areas of 4 words.\<close>

definition remote_arg_of :: "u64 list \<Rightarrow> kcov_remote_arg" where
  "remote_arg_of hs = \<lparr>trace_mode = 0, area_size = 4, num_handles = of_nat (length hs),
                        unused = 0, handles = hs\<rparr>"

text \<open>After \<open>KCOV_REMOTE_ENABLE\<close> with \<open>remote_arg_of [0x42]\<close> by task 1 on
  \<open>mapped_state 4\<close>.\<close>

definition remote_state :: state where
  "remote_state =
     \<lparr>kcovs = [0 \<mapsto> \<lparr>k_refcount = 2, k_mode = KCOV_MODE_TRACE_PC, k_size = 4,
                       k_area = Some 0, k_t = Some 1, k_remote = True,
                       k_remote_size = 4, k_sequence = 1\<rparr>],
      tasks = (\<lambda>t. idle_task)(1 := idle_task\<lparr>kcov := Some 0\<rparr>),
      mem = [0 \<mapsto> [0, 0, 0, 0]],
      kcov_remote_map = [(0x42, 0)], kcov_remote_areas = []\<rparr>"

text \<open>What \<open>KCOV_REMOTE_ENABLE\<close> with the handles \<open>[0x42, 0x42]\<close> by task 1 leaves
  of \<open>mapped_state 4\<close>.\<close>

definition duplicate_failed_state :: state where
  "duplicate_failed_state =
     \<lparr>kcovs = [0 \<mapsto> \<lparr>k_refcount = 1, k_mode = KCOV_MODE_INIT, k_size = 4,
                       k_area = Some 0, k_t = None, k_remote = False,
                       k_remote_size = 0, k_sequence = 2\<rparr>],
      tasks = (\<lambda>t. idle_task)(1 := idle_task\<lparr>kcov := Some 0\<rparr>),
      mem = [0 \<mapsto> [0, 0, 0, 0]],
      kcov_remote_map = [], kcov_remote_areas = []\<rparr>"

text \<open>What \<open>kcov_remote_start(0x42)\<close> by task 2 leaves of \<open>remote_state\<close> when the
  free list is empty and \<open>vmalloc\<close> fails.\<close>

definition start_failed_state :: state where
  "start_failed_state =
     remote_state\<lparr>tasks := (\<lambda>t. idle_task)(1 := idle_task\<lparr>kcov := Some 0\<rparr>,
                                            2 := idle_task\<lparr>kcov := Some 0\<rparr>)\<rparr>"

text \<open>\<open>enabled_state 5 KCOV_MODE_TRACE_CMP\<close> after user space has stored
  \<open>2 ^ 62\<close> in the count word of the shared buffer.\<close>

definition cmp_wrapped_state :: state where
  "cmp_wrapped_state =
     (enabled_state 5 KCOV_MODE_TRACE_CMP)\<lparr>mem := [0 \<mapsto> [0x4000000000000000, 0, 0, 0, 0]]\<rparr>"

text \<open>After \<open>kcov_remote_start(0x42)\<close> by task 2 on \<open>remote_state\<close>, the free list
  empty and \<open>vmalloc\<close> returning area 1 holding \<open>[9, 9, 9, 9]\<close>.\<close>

definition window_state :: state where
  "window_state =
     \<lparr>kcovs = [0 \<mapsto> \<lparr>k_refcount = 3, k_mode = KCOV_MODE_TRACE_PC, k_size = 4,
                       k_area = Some 0, k_t = Some 1, k_remote = True,
                       k_remote_size = 4, k_sequence = 1\<rparr>],
      tasks = (\<lambda>t. idle_task)
                (1 := idle_task\<lparr>kcov := Some 0\<rparr>,
                 2 := \<lparr>kcov_mode = KCOV_MODE_TRACE_PC, kcov_size = 4, kcov_area = Some 1,
                        kcov = Some 0, kcov_sequence = 1\<rparr>),
      mem = [0 \<mapsto> [0, 0, 0, 0], 1 \<mapsto> [0, 9, 9, 9]],
      kcov_remote_map = [(0x42, 0)], kcov_remote_areas = []\<rparr>"

text \<open>\<open>window_state\<close> with one record in the shared buffer and three in the scratch
  area.\<close>

definition merge_state :: state where
  "merge_state = window_state\<lparr>mem := [0 \<mapsto> [1, 0x11, 0, 0], 1 \<mapsto> [3, 0x10, 0x20, 0x30]]\<rparr>"

text \<open>The calls that open descriptor 0, size it to \<open>n\<close> words and map it as area 0,
  all by task 1.\<close>

definition setup_calls :: "u64 \<Rightarrow> event list" where
  "setup_calls n =
     [Open (Some 0),
      Ioctl 1 (\<lambda>i. True) 0 KCOV_INIT_TRACE n no_remote_arg,
      Mmap 0 0 (n * 8) (Some 0)]"

definition enable_call :: "u64 \<Rightarrow> event" where
  "enable_call m = Ioctl 1 (\<lambda>i. True) 0 KCOV_ENABLE m no_remote_arg"

definition remote_enable_call :: "u64 list \<Rightarrow> event" where
  "remote_enable_call hs = Ioctl 1 (\<lambda>i. True) 0 KCOV_REMOTE_ENABLE 0 (remote_arg_of hs)"

text \<open>The calls that open a second descriptor (descriptor 1), size it to 4 words and map
  it as area 1, all by task 1.\<close>

definition second_setup_calls :: "event list" where
  "second_setup_calls =
     [Open (Some 1),
      Ioctl 1 (\<lambda>i. True) 1 KCOV_INIT_TRACE 4 no_remote_arg,
      Mmap 1 0 32 (Some 1)]"

text \<open>After \<open>second_setup_calls\<close> on \<open>enabled_state 4 KCOV_MODE_TRACE_PC\<close>: task 1
  collects on descriptor 0, descriptor 1 is initialised and mapped and has no owner.\<close>

definition second_mapped_state :: state where
  "second_mapped_state =
     \<lparr>kcovs = [0 \<mapsto> \<lparr>k_refcount = 2, k_mode = KCOV_MODE_TRACE_PC, k_size = 4,
                       k_area = Some 0, k_t = Some 1, k_remote = False,
                       k_remote_size = 0, k_sequence = 1\<rparr>,
               1 \<mapsto> \<lparr>k_refcount = 1, k_mode = KCOV_MODE_INIT, k_size = 4,
                       k_area = Some 1, k_t = None, k_remote = False,
                       k_remote_size = 0, k_sequence = 1\<rparr>],
      tasks = (\<lambda>t. idle_task)(1 := \<lparr>kcov_mode = KCOV_MODE_TRACE_PC, kcov_size = 4,
                                      kcov_area = Some 0, kcov = Some 0, kcov_sequence = 1\<rparr>),
      mem = [0 \<mapsto> [0, 0, 0, 0], 1 \<mapsto> [0, 0, 0, 0]],
      kcov_remote_map = [], kcov_remote_areas = []\<rparr>"




section \<open>Properties\<close>

subsection \<open>Words\<close>

lemma unat_ucast_u32_u64: "unat (ucast (w :: u32) :: u64) = unat w"
proof -
  have "unat w < 2 ^ 32" using unsigned_less [of w] by simp
  then have "unat w < 2 ^ 64" by simp
  then show ?thesis by (simp add: unsigned_ucast_eq take_bit_nat_eq_self)
qed

lemma unat_u32_lt: "unat (w :: u32) < 4294967296"
  using unsigned_less [of w] by simp

lemma unat_min_word: "unat (min a b) = min (unat a) (unat b)" for a b :: "'a::len word"
  by (simp add: min_def word_le_nat_alt)

lemma nat_sub_mult_div:
  fixes a e d :: nat
  assumes "0 < e" and "e * d \<le> a"
  shows "(a - e * d) div e = a div e - d"
proof -
  obtain r where r: "a = r + d * e" using assms(2) by (metis le_Suc_ex add.commute mult.commute)
  have "(a - e * d) div e = r div e" using r by (simp add: mult.commute)
  moreover have "a div e = r div e + d" using r assms(1) by simp
  ultimately show ?thesis by simp
qed

lemma min_div_nat: "min a b div e = min (a div e) (b div e)" for a b e :: nat
  by (simp add: min_def div_le_mono) (metis div_le_mono le_antisym nat_le_linear)


subsection \<open>The example states are reached by the calls\<close>

lemma zeroes3: "replicate 3 (0 :: u64) = [0, 0, 0]"
  by (simp add: numeral_3_eq_3)

lemma zeroes4: "replicate 4 (0 :: u64) = [0, 0, 0, 0]"
  by (simp add: numeral_eq_Suc)

lemma zeroes5: "replicate 5 (0 :: u64) = [0, 0, 0, 0, 0]"
  by (simp add: numeral_eq_Suc)

lemma run_append: "run cfg (evs @ evs') s = (case run cfg evs s of None \<Rightarrow> None | Some s1 \<Rightarrow> run cfg evs' s1)"
  by (induction evs arbitrary: s) (auto split: option.splits)

lemma reach_mapped_state:
  "run cfg0 (setup_calls 3) boot_state = Some (mapped_state 3)"
  "run cfg0 (setup_calls 4) boot_state = Some (mapped_state 4)"
  "run cfg0 (setup_calls 5) boot_state = Some (mapped_state 5)"
  by (simp_all add: setup_calls_def kcov_open_def boot_state_def kcov_ioctl_locked_def INT_MAX_def
      sizeof_long_def kcov_mmap_def mapped_state_def Let_def)

lemma enable_mapped_state:
  "exec cfg0 (enable_call KCOV_TRACE_PC) (mapped_state n) = Some (enabled_state n KCOV_MODE_TRACE_PC)"
  "exec cfg0 (enable_call KCOV_TRACE_CMP) (mapped_state n) = Some (enabled_state n KCOV_MODE_TRACE_CMP)"
  by (simp_all add: enable_call_def kcov_ioctl_locked_def mapped_state_def enabled_state_def
      kcov_get_mode_def KCOV_TRACE_PC_def KCOV_TRACE_CMP_def cfg0_def kcov_start_def kcov_get_def
      Let_def idle_task_def)

lemma reach_enabled_state:
  "run cfg0 (setup_calls 3 @ [enable_call KCOV_TRACE_PC]) boot_state
     = Some (enabled_state 3 KCOV_MODE_TRACE_PC)"
  "run cfg0 (setup_calls 4 @ [enable_call KCOV_TRACE_PC]) boot_state
     = Some (enabled_state 4 KCOV_MODE_TRACE_PC)"
  "run cfg0 (setup_calls 5 @ [enable_call KCOV_TRACE_CMP]) boot_state
     = Some (enabled_state 5 KCOV_MODE_TRACE_CMP)"
  by (simp_all add: run_append reach_mapped_state enable_mapped_state)

lemma reach_cmp_wrapped_state:
  "run cfg0 (setup_calls 5 @ [enable_call KCOV_TRACE_CMP, User_store 0 0 0x4000000000000000])
     boot_state = Some cmp_wrapped_state"
  by (simp add: run_append reach_mapped_state enable_mapped_state)
     (simp add: enabled_state_def cmp_wrapped_state_def area_write_def zeroes5)

lemma remote_enable_mapped_state:
  "exec cfg0 (remote_enable_call [0x42]) (mapped_state 4) = Some remote_state"
  "exec cfg0 (remote_enable_call [0x42, 0x42]) (mapped_state 4) = Some duplicate_failed_state"
  by (simp_all add: remote_enable_call_def kcov_ioctl_locked_def mapped_state_def remote_state_def
      duplicate_failed_state_def kcov_get_mode_def KCOV_TRACE_PC_def kcov_get_def Let_def
      remote_arg_of_def kcov_remote_find_def zeroes4 idle_task_def kcov_remote_reset_def
      kcov_reset_def)

lemma reach_remote_state:
  "run cfg0 (setup_calls 4 @ [remote_enable_call [0x42]]) boot_state = Some remote_state"
  by (simp add: run_append reach_mapped_state remote_enable_mapped_state)

lemma reach_duplicate_failed_state:
  "run cfg0 (setup_calls 4 @ [remote_enable_call [0x42, 0x42]]) boot_state
     = Some duplicate_failed_state"
  by (simp add: run_append reach_mapped_state remote_enable_mapped_state)

lemma start_remote_state:
  "exec cfg0 (Remote_start True 2 (Some (1, [9, 9, 9, 9])) 0x42) remote_state = Some window_state"
  "exec cfg0 (Remote_start True 2 None 0x42) remote_state = Some start_failed_state"
  by (simp_all add: kcov_remote_start_def remote_state_def window_state_def start_failed_state_def
      kcov_remote_find_def kcov_get_def kcov_put_def kcov_remote_area_get_def Let_def idle_task_def
      area_write_def kcov_start_def fun_upd_twist)

lemma reach_window_state:
  "run cfg0 (setup_calls 4 @ [remote_enable_call [0x42],
       Remote_start True 2 (Some (1, [9, 9, 9, 9])) 0x42]) boot_state = Some window_state"
  by (simp add: run_append reach_mapped_state remote_enable_mapped_state start_remote_state
      del: exec.simps One_nat_def)

lemma reach_start_failed_state:
  "run cfg0 (setup_calls 4 @ [remote_enable_call [0x42], Remote_start True 2 None 0x42])
     boot_state = Some start_failed_state"
  by (simp add: run_append reach_mapped_state remote_enable_mapped_state start_remote_state
      del: exec.simps One_nat_def)




text \<open>Scenario S2: calls beyond the capacity are dropped.\<close>

lemma pc_overflow_drop_example:
  "trace_pc_calls cfg0 1 [0x1010, 0x1020, 0x1030, 0x1040] (enabled_state 3 KCOV_MODE_TRACE_PC)
     = Some ((enabled_state 3 KCOV_MODE_TRACE_PC)\<lparr>mem := [0 \<mapsto> [2, 0x10, 0x20]]\<rparr>)"
  by (simp add: enabled_state_def zeroes3 sanitizer_cov_trace_pc_def check_kcov_mode_def
      canonicalize_ip_def cfg0_def area_read_def area_write_def Let_def)

text \<open>A second descriptor beside the one task 1 collects on.\<close>

lemma second_setup_enabled_state:
  "run cfg0 second_setup_calls (enabled_state 4 KCOV_MODE_TRACE_PC) = Some second_mapped_state"
  by (simp add: second_setup_calls_def kcov_open_def enabled_state_def kcov_ioctl_locked_def
      INT_MAX_def sizeof_long_def kcov_mmap_def second_mapped_state_def Let_def zeroes4
      fun_upd_twist)

lemma reach_second_mapped_state:
  "run cfg0 (setup_calls 4 @ [enable_call KCOV_TRACE_PC] @ second_setup_calls) boot_state
     = Some second_mapped_state"
proof -
  have "run cfg0 ((setup_calls 4 @ [enable_call KCOV_TRACE_PC]) @ second_setup_calls) boot_state
     = Some second_mapped_state"
    using reach_enabled_state(2) second_setup_enabled_state by (simp only: run_append option.case)
  then show ?thesis by simp
qed

subsection \<open>The PC sink\<close>

lemma trace_pc_step:
  assumes "kcov_mode (tasks s cur) = KCOV_MODE_TRACE_PC"
    and "kcov_area (tasks s cur) = Some a"
    and "mem s a = Some buf"
    and "length buf = unat (kcov_size (tasks s cur))"
    and "unat (buf ! 0) < length buf"
  shows "sanitizer_cov_trace_pc cfg True cur ip s =
     Some (if unat (buf ! 0) + 1 < length buf
           then s\<lparr>mem := (mem s)(a \<mapsto> buf[unat (buf ! 0) + 1 := canonicalize_ip cfg ip, 0 := buf ! 0 + 1])\<rparr>
           else s)"
proof -
  let ?c = "buf ! 0"
  let ?N = "kcov_size (tasks s cur)"
  have lt32: "unat ?N < 2 ^ 32" using unsigned_less [of ?N] by simp
  have uc: "unat (ucast ?N :: u64) = unat ?N" by (rule unat_ucast_u32_u64)
  have c1: "unat (?c + 1) = unat ?c + 1"
    using assms(4,5) lt32 by (simp add: unat_word_ariths)
  have cmp: "(?c + 1 < ucast ?N) = (unat ?c + 1 < length buf)"
    using c1 uc assms(4) by (simp add: word_less_nat_alt)
  have ne: "buf \<noteq> []" using assms(5) by auto
  show ?thesis
    using assms(1,2,3) cmp c1 ne
    by (simp add: sanitizer_cov_trace_pc_def check_kcov_mode_def Let_def area_read_def area_write_def)
qed

lemma trace_pc_calls_buffer:
  assumes "kcov_mode (tasks s cur) = KCOV_MODE_TRACE_PC"
    and "kcov_area (tasks s cur) = Some a"
    and "mem s a = Some buf"
    and "length buf = unat (kcov_size (tasks s cur))"
    and "unat (buf ! 0) < length buf"
  shows "\<exists>buf'. trace_pc_calls cfg cur ips s = Some (s\<lparr>mem := (mem s)(a \<mapsto> buf')\<rparr>)
           \<and> length buf' = length buf
           \<and> unat (buf' ! 0) = min (unat (buf ! 0) + length ips) (length buf - 1)
           \<and> (\<forall>i. 1 \<le> i \<and> i \<le> unat (buf ! 0) \<longrightarrow> buf' ! i = buf ! i)
           \<and> (\<forall>j. j < unat (buf' ! 0) - unat (buf ! 0) \<longrightarrow>
                  buf' ! (1 + unat (buf ! 0) + j) = canonicalize_ip cfg (ips ! j))"
  using assms
proof (induction ips arbitrary: s buf)
  case Nil
  have "(mem s)(a \<mapsto> buf) = mem s"
    using Nil.prems(3) by (rule map_upd_triv)
  then have r: "trace_pc_calls cfg cur [] s = Some (s\<lparr>mem := (mem s)(a \<mapsto> buf)\<rparr>)"
    by simp
  have c: "unat (buf ! 0) = min (unat (buf ! 0) + length ([] :: u64 list)) (length buf - 1)"
    using Nil.prems(5) by simp
  have new: "\<forall>j. j < unat (buf ! 0) - unat (buf ! 0) \<longrightarrow>
                  buf ! (1 + unat (buf ! 0) + j) = canonicalize_ip cfg ([] ! j)" by simp
  show ?case using r c new by blast
next
  case (Cons ip ips)
  let ?c = "unat (buf ! 0)"
  have step: "sanitizer_cov_trace_pc cfg True cur ip s =
     Some (if ?c + 1 < length buf
           then s\<lparr>mem := (mem s)(a \<mapsto> buf[?c + 1 := canonicalize_ip cfg ip, 0 := buf ! 0 + 1])\<rparr>
           else s)"
    by (rule trace_pc_step [OF Cons.prems])
  show ?case
  proof (cases "?c + 1 < length buf")
    case True
    let ?buf1 = "buf[?c + 1 := canonicalize_ip cfg ip, 0 := buf ! 0 + 1]"
    let ?s1 = "s\<lparr>mem := (mem s)(a \<mapsto> ?buf1)\<rparr>"
    have lt32: "unat (kcov_size (tasks s cur)) < 2 ^ 32"
      using unsigned_less [of "kcov_size (tasks s cur)"] by simp
    have c1: "unat (?buf1 ! 0) = ?c + 1"
      using True Cons.prems(4) lt32 by (simp add: unat_word_ariths)
    have p1: "kcov_mode (tasks ?s1 cur) = KCOV_MODE_TRACE_PC" using Cons.prems(1) by simp
    have p2: "kcov_area (tasks ?s1 cur) = Some a" using Cons.prems(2) by simp
    have p3: "mem ?s1 a = Some ?buf1" by simp
    have p4: "length ?buf1 = unat (kcov_size (tasks ?s1 cur))" using Cons.prems(4) by simp
    have p5: "unat (?buf1 ! 0) < length ?buf1" using c1 True by simp
    from Cons.IH [OF p1 p2 p3 p4 p5] obtain buf' where
      r: "trace_pc_calls cfg cur ips ?s1 = Some (?s1\<lparr>mem := (mem ?s1)(a \<mapsto> buf')\<rparr>)"
      and l: "length buf' = length ?buf1"
      and c: "unat (buf' ! 0) = min (unat (?buf1 ! 0) + length ips) (length ?buf1 - 1)"
      and old: "\<forall>i. 1 \<le> i \<and> i \<le> unat (?buf1 ! 0) \<longrightarrow> buf' ! i = ?buf1 ! i"
      and new: "\<forall>j. j < unat (buf' ! 0) - unat (?buf1 ! 0) \<longrightarrow>
                  buf' ! (1 + unat (?buf1 ! 0) + j) = canonicalize_ip cfg (ips ! j)"
      by blast
    have r': "trace_pc_calls cfg cur (ip # ips) s = Some (s\<lparr>mem := (mem s)(a \<mapsto> buf')\<rparr>)"
      using step True r by simp
    have l': "length buf' = length buf" using l by simp
    have c': "unat (buf' ! 0) = min (?c + length (ip # ips)) (length buf - 1)"
      using c c1 by simp
    have old': "\<forall>i. 1 \<le> i \<and> i \<le> ?c \<longrightarrow> buf' ! i = buf ! i"
    proof (intro allI impI)
      fix i assume i: "1 \<le> i \<and> i \<le> ?c"
      then have "buf' ! i = ?buf1 ! i" using old c1 by simp
      also have "\<dots> = buf ! i" using i by simp
      finally show "buf' ! i = buf ! i" .
    qed
    have new': "\<forall>j. j < unat (buf' ! 0) - ?c \<longrightarrow>
                  buf' ! (1 + ?c + j) = canonicalize_ip cfg ((ip # ips) ! j)"
    proof (intro allI impI)
      fix j assume j: "j < unat (buf' ! 0) - ?c"
      show "buf' ! (1 + ?c + j) = canonicalize_ip cfg ((ip # ips) ! j)"
      proof (cases j)
        case 0
        have "buf' ! (?c + 1) = ?buf1 ! (?c + 1)" using old c1 by simp
        also have "\<dots> = canonicalize_ip cfg ip" using True by simp
        finally show ?thesis using 0 by simp
      next
        case (Suc k)
        then have "k < unat (buf' ! 0) - unat (?buf1 ! 0)" using j c1 by simp
        then have "buf' ! (1 + unat (?buf1 ! 0) + k) = canonicalize_ip cfg (ips ! k)"
          using new by blast
        then show ?thesis using Suc c1 by simp
      qed
    qed
    show ?thesis using r' l' c' old' new' by blast
  next
    case False
    then have full: "?c = length buf - 1" using Cons.prems(5) by simp
    from Cons.IH [OF Cons.prems] obtain buf' where
      r: "trace_pc_calls cfg cur ips s = Some (s\<lparr>mem := (mem s)(a \<mapsto> buf')\<rparr>)"
      and l: "length buf' = length buf"
      and c: "unat (buf' ! 0) = min (?c + length ips) (length buf - 1)"
      and old: "\<forall>i. 1 \<le> i \<and> i \<le> ?c \<longrightarrow> buf' ! i = buf ! i"
      by blast
    have r': "trace_pc_calls cfg cur (ip # ips) s = Some (s\<lparr>mem := (mem s)(a \<mapsto> buf')\<rparr>)"
      using step False r by simp
    have c': "unat (buf' ! 0) = min (?c + length (ip # ips)) (length buf - 1)"
      using c full by simp
    have "unat (buf' ! 0) - ?c = 0" using c full by simp
    then have new': "\<forall>j. j < unat (buf' ! 0) - ?c \<longrightarrow>
                  buf' ! (1 + ?c + j) = canonicalize_ip cfg ((ip # ips) ! j)" by simp
    show ?thesis using r' l c' old new' by blast
  qed
qed

text \<open>
  Claim C1. A task enabled in PC mode whose buffer of \<open>N\<close> words starts with
  count 0 makes any sequence of PC sink calls in task context. No call faults and only
  the buffer changes; the count at word 0 ends at \<open>min (number of calls) (N - 1)\<close>,
  so it never exceeds \<open>N - 1\<close>; words \<open>[1, count]\<close> are the canonicalized PCs
  of the first \<open>N - 1\<close> calls in call order; and once the count is \<open>N - 1\<close>
  every further call leaves the whole state as it is.
\<close>

theorem pc_sink_buffer_bound:
  assumes "kcov_mode (tasks s cur) = KCOV_MODE_TRACE_PC"
    and "kcov_area (tasks s cur) = Some a"
    and "mem s a = Some buf"
    and "length buf = unat (kcov_size (tasks s cur))"
    and "buf \<noteq> []"
    and "buf ! 0 = 0"
  shows "\<exists>buf'. trace_pc_calls cfg cur ips s = Some (s\<lparr>mem := (mem s)(a \<mapsto> buf')\<rparr>)
           \<and> length buf' = length buf
           \<and> unat (buf' ! 0) \<le> length buf - 1
           \<and> unat (buf' ! 0) = min (length ips) (length buf - 1)
           \<and> take (unat (buf' ! 0)) (drop 1 buf')
                = map (canonicalize_ip cfg) (take (length buf - 1) ips)
           \<and> (unat (buf' ! 0) = length buf - 1 \<longrightarrow>
                (\<forall>ip. sanitizer_cov_trace_pc cfg True cur ip (s\<lparr>mem := (mem s)(a \<mapsto> buf')\<rparr>)
                        = Some (s\<lparr>mem := (mem s)(a \<mapsto> buf')\<rparr>)))"
proof -
  have c0: "unat (buf ! 0) = 0" using assms(6) by simp
  have inv: "unat (buf ! 0) < length buf" using c0 assms(5) by simp
  from trace_pc_calls_buffer [OF assms(1-4) inv, of cfg ips] obtain buf' where
    r: "trace_pc_calls cfg cur ips s = Some (s\<lparr>mem := (mem s)(a \<mapsto> buf')\<rparr>)"
    and l: "length buf' = length buf"
    and c: "unat (buf' ! 0) = min (length ips) (length buf - 1)"
    and new: "\<forall>j. j < unat (buf' ! 0) \<longrightarrow> buf' ! (1 + j) = canonicalize_ip cfg (ips ! j)"
    using c0 by auto
  let ?s' = "s\<lparr>mem := (mem s)(a \<mapsto> buf')\<rparr>"
  have le: "unat (buf' ! 0) \<le> length buf - 1" using c by simp
  have recs: "take (unat (buf' ! 0)) (drop 1 buf')
                = map (canonicalize_ip cfg) (take (length buf - 1) ips)"
  proof (rule nth_equalityI)
    show "length (take (unat (buf' ! 0)) (drop 1 buf'))
            = length (map (canonicalize_ip cfg) (take (length buf - 1) ips))"
      using c l by auto
  next
    fix i assume "i < length (take (unat (buf' ! 0)) (drop 1 buf'))"
    then have i: "i < unat (buf' ! 0)" by simp
    then have "buf' ! (1 + i) = canonicalize_ip cfg (ips ! i)" using new by blast
    moreover have "i < length ips" and "i < length buf - 1" using i c by auto
    moreover have "1 + i \<le> length buf'" using i le l by simp
    ultimately show "take (unat (buf' ! 0)) (drop 1 buf') ! i
            = map (canonicalize_ip cfg) (take (length buf - 1) ips) ! i"
      using i by simp
  qed
  have full: "\<forall>ip. sanitizer_cov_trace_pc cfg True cur ip ?s' = Some ?s'"
    if f: "unat (buf' ! 0) = length buf - 1"
  proof
    fix ip
    have q1: "kcov_mode (tasks ?s' cur) = KCOV_MODE_TRACE_PC" using assms(1) by simp
    have q2: "kcov_area (tasks ?s' cur) = Some a" using assms(2) by simp
    have q3: "mem ?s' a = Some buf'" by simp
    have q4: "length buf' = unat (kcov_size (tasks ?s' cur))" using assms(4) l by simp
    have q5: "unat (buf' ! 0) < length buf'" using f l assms(5) by simp
    have "\<not> unat (buf' ! 0) + 1 < length buf'" using f l by simp
    then show "sanitizer_cov_trace_pc cfg True cur ip ?s' = Some ?s'"
      using trace_pc_step [OF q1 q2 q3 q4 q5, of cfg ip] by simp
  qed
  show ?thesis using r l le c recs full by blast
qed

theorem pc_sink_buffer_bound_witness:
  "kcov_mode (tasks (enabled_state 3 KCOV_MODE_TRACE_PC) 1) = KCOV_MODE_TRACE_PC
   \<and> kcov_area (tasks (enabled_state 3 KCOV_MODE_TRACE_PC) 1) = Some 0
   \<and> mem (enabled_state 3 KCOV_MODE_TRACE_PC) 0 = Some [0, 0, 0]
   \<and> length [0 :: u64, 0, 0] = unat (kcov_size (tasks (enabled_state 3 KCOV_MODE_TRACE_PC) 1))
   \<and> (\<exists>buf'. trace_pc_calls cfg0 1 [0x1010, 0x1020, 0x1030, 0x1040]
                 (enabled_state 3 KCOV_MODE_TRACE_PC)
               = Some ((enabled_state 3 KCOV_MODE_TRACE_PC)
                         \<lparr>mem := (mem (enabled_state 3 KCOV_MODE_TRACE_PC))(0 \<mapsto> buf')\<rparr>)
           \<and> unat (buf' ! 0) = 2
           \<and> take (unat (buf' ! 0)) (drop 1 buf')
                = map (canonicalize_ip cfg0) (take 2 [0x1010, 0x1020, 0x1030, 0x1040])
           \<and> (\<forall>ip. sanitizer_cov_trace_pc cfg0 True 1 ip
                       ((enabled_state 3 KCOV_MODE_TRACE_PC)
                          \<lparr>mem := (mem (enabled_state 3 KCOV_MODE_TRACE_PC))(0 \<mapsto> buf')\<rparr>)
                     = Some ((enabled_state 3 KCOV_MODE_TRACE_PC)
                          \<lparr>mem := (mem (enabled_state 3 KCOV_MODE_TRACE_PC))(0 \<mapsto> buf')\<rparr>)))"
proof -
  let ?s = "enabled_state 3 KCOV_MODE_TRACE_PC"
  have h1: "kcov_mode (tasks ?s 1) = KCOV_MODE_TRACE_PC" by (simp add: enabled_state_def)
  have h2: "kcov_area (tasks ?s 1) = Some 0" by (simp add: enabled_state_def)
  have h3: "mem ?s 0 = Some [0, 0, 0]" by (simp add: enabled_state_def zeroes3)
  have h4: "length [0 :: u64, 0, 0] = unat (kcov_size (tasks ?s 1))"
    by (simp add: enabled_state_def)
  have h5: "[0 :: u64, 0, 0] \<noteq> []" by simp
  have h6: "[0 :: u64, 0, 0] ! 0 = 0" by simp
  from pc_sink_buffer_bound [OF h1 h2 h3 h4 h5 h6, of cfg0 "[0x1010, 0x1020, 0x1030, 0x1040]"]
  obtain buf' where
    r: "trace_pc_calls cfg0 1 [0x1010, 0x1020, 0x1030, 0x1040] ?s
          = Some (?s\<lparr>mem := (mem ?s)(0 \<mapsto> buf')\<rparr>)"
    and c: "unat (buf' ! 0) = min (length [0x1010 :: u64, 0x1020, 0x1030, 0x1040]) (length [0 :: u64, 0, 0] - 1)"
    and recs: "take (unat (buf' ! 0)) (drop 1 buf')
         = map (canonicalize_ip cfg0) (take (length [0 :: u64, 0, 0] - 1) [0x1010, 0x1020, 0x1030, 0x1040])"
    and full: "unat (buf' ! 0) = length [0 :: u64, 0, 0] - 1 \<longrightarrow>
                (\<forall>ip. sanitizer_cov_trace_pc cfg0 True 1 ip (?s\<lparr>mem := (mem ?s)(0 \<mapsto> buf')\<rparr>)
                        = Some (?s\<lparr>mem := (mem ?s)(0 \<mapsto> buf')\<rparr>))"
    by blast
  have c2: "unat (buf' ! 0) = 2" using c by simp
  have recs2: "take (unat (buf' ! 0)) (drop 1 buf')
         = map (canonicalize_ip cfg0) (take 2 [0x1010, 0x1020, 0x1030, 0x1040])"
    using recs by simp
  have full2: "\<forall>ip. sanitizer_cov_trace_pc cfg0 True 1 ip (?s\<lparr>mem := (mem ?s)(0 \<mapsto> buf')\<rparr>)
                        = Some (?s\<lparr>mem := (mem ?s)(0 \<mapsto> buf')\<rparr>)"
    using full c2 by simp
  show ?thesis using h1 h2 h3 h4 r c2 recs2 full2 by blast
qed

subsection \<open>Sinks outside task context or in another mode\<close>

lemma write_comp_data_skip:
  "\<not> in_task \<or> kcov_mode (tasks s cur) \<noteq> KCOV_MODE_TRACE_CMP \<Longrightarrow>
   write_comp_data cfg in_task cur type arg1 arg2 ip s = Some s"
  by (auto simp: write_comp_data_def check_kcov_mode_def Let_def)

lemma trace_switch_loop_skip:
  "\<not> in_task \<or> kcov_mode (tasks s cur) \<noteq> KCOV_MODE_TRACE_CMP \<Longrightarrow>
   trace_switch_loop cfg in_task cur type val ip cs s = Some s"
  by (induction cs) (simp_all add: write_comp_data_skip)

lemma trace_switch_skip:
  "\<not> in_task \<or> kcov_mode (tasks s cur) \<noteq> KCOV_MODE_TRACE_CMP \<Longrightarrow> 2 \<le> length cases \<Longrightarrow>
   sanitizer_cov_trace_switch cfg in_task cur val cases ip s = Some s"
  by (simp add: sanitizer_cov_trace_switch_def Let_def trace_switch_loop_skip)

text \<open>
  Claim C9. A sink called while \<open>in_task()\<close> is false, or by a task whose mode word
  is not the mode the sink implements, returns with the whole state as it was: no area
  is written and no count moves. This holds for the PC sink, for \<open>write_comp_data\<close>
  and the eight comparison sinks built on it, and for the switch sink on a table of at
  least its two header words.
\<close>

theorem sinks_silent_when_not_recording:
  "(\<not> in_task \<or> kcov_mode (tasks s cur) \<noteq> KCOV_MODE_TRACE_PC \<longrightarrow>
      sanitizer_cov_trace_pc cfg in_task cur ip s = Some s)
   \<and> (\<not> in_task \<or> kcov_mode (tasks s cur) \<noteq> KCOV_MODE_TRACE_CMP \<longrightarrow>
        write_comp_data cfg in_task cur type a1 a2 ip s = Some s
      \<and> sanitizer_cov_trace_cmp1 cfg in_task cur b1 b2 ip s = Some s
      \<and> sanitizer_cov_trace_cmp2 cfg in_task cur h1 h2 ip s = Some s
      \<and> sanitizer_cov_trace_cmp4 cfg in_task cur w1 w2 ip s = Some s
      \<and> sanitizer_cov_trace_cmp8 cfg in_task cur a1 a2 ip s = Some s
      \<and> sanitizer_cov_trace_const_cmp1 cfg in_task cur b1 b2 ip s = Some s
      \<and> sanitizer_cov_trace_const_cmp2 cfg in_task cur h1 h2 ip s = Some s
      \<and> sanitizer_cov_trace_const_cmp4 cfg in_task cur w1 w2 ip s = Some s
      \<and> sanitizer_cov_trace_const_cmp8 cfg in_task cur a1 a2 ip s = Some s
      \<and> (2 \<le> length cases \<longrightarrow>
            sanitizer_cov_trace_switch cfg in_task cur a1 cases ip s = Some s))"
proof (intro conjI impI)
  assume "\<not> in_task \<or> kcov_mode (tasks s cur) \<noteq> KCOV_MODE_TRACE_PC"
  then show "sanitizer_cov_trace_pc cfg in_task cur ip s = Some s"
    by (auto simp: sanitizer_cov_trace_pc_def check_kcov_mode_def Let_def)
next
  assume c: "\<not> in_task \<or> kcov_mode (tasks s cur) \<noteq> KCOV_MODE_TRACE_CMP"
  show "write_comp_data cfg in_task cur type a1 a2 ip s = Some s"
    by (rule write_comp_data_skip [OF c])
  show "sanitizer_cov_trace_cmp1 cfg in_task cur b1 b2 ip s = Some s"
    by (simp add: sanitizer_cov_trace_cmp1_def write_comp_data_skip [OF c])
  show "sanitizer_cov_trace_cmp2 cfg in_task cur h1 h2 ip s = Some s"
    by (simp add: sanitizer_cov_trace_cmp2_def write_comp_data_skip [OF c])
  show "sanitizer_cov_trace_cmp4 cfg in_task cur w1 w2 ip s = Some s"
    by (simp add: sanitizer_cov_trace_cmp4_def write_comp_data_skip [OF c])
  show "sanitizer_cov_trace_cmp8 cfg in_task cur a1 a2 ip s = Some s"
    by (simp add: sanitizer_cov_trace_cmp8_def write_comp_data_skip [OF c])
  show "sanitizer_cov_trace_const_cmp1 cfg in_task cur b1 b2 ip s = Some s"
    by (simp add: sanitizer_cov_trace_const_cmp1_def write_comp_data_skip [OF c])
  show "sanitizer_cov_trace_const_cmp2 cfg in_task cur h1 h2 ip s = Some s"
    by (simp add: sanitizer_cov_trace_const_cmp2_def write_comp_data_skip [OF c])
  show "sanitizer_cov_trace_const_cmp4 cfg in_task cur w1 w2 ip s = Some s"
    by (simp add: sanitizer_cov_trace_const_cmp4_def write_comp_data_skip [OF c])
  show "sanitizer_cov_trace_const_cmp8 cfg in_task cur a1 a2 ip s = Some s"
    by (simp add: sanitizer_cov_trace_const_cmp8_def write_comp_data_skip [OF c])
  show "sanitizer_cov_trace_switch cfg in_task cur a1 cases ip s = Some s"
    if "2 \<le> length cases"
    by (rule trace_switch_skip [OF c that])
qed

text \<open>An interrupt on a PC-enabled task, and comparison sinks called by that task.\<close>

theorem sinks_silent_when_not_recording_witness:
  "sanitizer_cov_trace_pc cfg0 False 1 0x1010 (enabled_state 3 KCOV_MODE_TRACE_PC)
      = Some (enabled_state 3 KCOV_MODE_TRACE_PC)
   \<and> kcov_mode (tasks (enabled_state 3 KCOV_MODE_TRACE_PC) 1) \<noteq> KCOV_MODE_TRACE_CMP
   \<and> sanitizer_cov_trace_cmp4 cfg0 True 1 7 9 0x1010 (enabled_state 3 KCOV_MODE_TRACE_PC)
      = Some (enabled_state 3 KCOV_MODE_TRACE_PC)
   \<and> 2 \<le> length [2 :: u64, 32, 5, 6]
   \<and> sanitizer_cov_trace_switch cfg0 True 1 5 [2, 32, 5, 6] 0x1010 (enabled_state 3 KCOV_MODE_TRACE_PC)
      = Some (enabled_state 3 KCOV_MODE_TRACE_PC)"
proof -
  have m: "kcov_mode (tasks (enabled_state 3 KCOV_MODE_TRACE_PC) 1) \<noteq> KCOV_MODE_TRACE_CMP"
    by (simp add: enabled_state_def)
  have l: "2 \<le> length [2 :: u64, 32, 5, 6]" by simp
  show ?thesis
    using m l
      sinks_silent_when_not_recording [of False "enabled_state 3 KCOV_MODE_TRACE_PC" 1 cfg0 "0x1010"]
      sinks_silent_when_not_recording [of True "enabled_state 3 KCOV_MODE_TRACE_PC" 1 cfg0 "0x1010"
         _ _ _ _ _ _ _ 7 9 "[2, 32, 5, 6]"]
    by blast
qed

subsection \<open>Trace mode validation\<close>

text \<open>
  Claim C10 as stated fails: task 1 collects on descriptor 0, descriptor 1 is in
  \<open>KCOV_MODE_INIT\<close> with a buffer and has no owner. Task 1 calls \<open>KCOV_ENABLE\<close>
  and \<open>KCOV_REMOTE_ENABLE\<close> on descriptor 1 with the trace mode 7, and the answer is
  \<open>EBUSY\<close>, not \<open>EINVAL\<close>: the calling task is tested before the trace mode.
\<close>

theorem invalid_trace_mode_busy_counterexample:
  "run cfg0 (setup_calls 4 @ [enable_call KCOV_TRACE_PC] @ second_setup_calls) boot_state
     = Some second_mapped_state
   \<and> map_option k_mode (kcovs second_mapped_state 1) = Some KCOV_MODE_INIT
   \<and> map_option k_area (kcovs second_mapped_state 1) = Some (Some 1)
   \<and> map_option k_t (kcovs second_mapped_state 1) = Some None
   \<and> (7 :: u64) \<noteq> KCOV_TRACE_PC
   \<and> (7 :: u64) \<noteq> KCOV_TRACE_CMP
   \<and> kcov_ioctl_locked cfg0 1 (\<lambda>i. True) 1 KCOV_ENABLE 7 no_remote_arg second_mapped_state
        = Some (Inl EBUSY, second_mapped_state)
   \<and> kcov_ioctl_locked cfg0 1 (\<lambda>i. True) 1 KCOV_REMOTE_ENABLE 0
        ((remote_arg_of [0x42])\<lparr>trace_mode := 7\<rparr>) second_mapped_state
        = Some (Inl EBUSY, second_mapped_state)"
  using reach_second_mapped_state
  by (simp add: second_mapped_state_def kcov_ioctl_locked_def KCOV_TRACE_PC_def KCOV_TRACE_CMP_def)

text \<open>
  Claim C10, amended. \<open>KCOV_ENABLE\<close> and \<open>KCOV_REMOTE_ENABLE\<close> on a descriptor in
  \<open>KCOV_MODE_INIT\<close> with a buffer and no owner, with a trace mode that is neither
  \<open>KCOV_TRACE_PC\<close> nor an available \<open>KCOV_TRACE_CMP\<close>: the call fails and the
  state (descriptor, registry, task) is the one before the call. The answer is
  \<open>EBUSY\<close> when the calling task has a descriptor, and otherwise \<open>EINVAL\<close>
  (\<open>ENOTSUPP\<close> for \<open>KCOV_TRACE_CMP\<close> without
  \<open>CONFIG_KCOV_ENABLE_COMPARISONS\<close>).
\<close>

theorem invalid_trace_mode_rejected:
  assumes "kcovs s kp = Some k"
    and "k_mode k = KCOV_MODE_INIT"
    and "k_area k \<noteq> None"
    and "k_t k = None"
    and "arg \<noteq> KCOV_TRACE_PC"
    and "arg = KCOV_TRACE_CMP \<longrightarrow> \<not> CONFIG_KCOV_ENABLE_COMPARISONS cfg"
  shows "kcov_ioctl_locked cfg cur kmalloc kp KCOV_ENABLE arg ra s
           = Some (Inl (if kcov (tasks s cur) \<noteq> None then EBUSY
                        else if arg = KCOV_TRACE_CMP then ENOTSUPP else EINVAL), s)
       \<and> (ucast (trace_mode ra) = arg \<longrightarrow>
            kcov_ioctl_locked cfg cur kmalloc kp KCOV_REMOTE_ENABLE arg' ra s
              = Some (Inl (if kcov (tasks s cur) \<noteq> None then EBUSY
                           else if arg = KCOV_TRACE_CMP then ENOTSUPP else EINVAL), s))"
proof -
  have m: "kcov_get_mode cfg arg = Inl (if arg = KCOV_TRACE_CMP then ENOTSUPP else EINVAL)"
    using assms(5,6) by (simp add: kcov_get_mode_def)
  show ?thesis
    using assms(1-4) m by (auto simp: kcov_ioctl_locked_def)
qed

theorem invalid_trace_mode_rejected_witness:
  "kcovs (mapped_state 4) 0 \<noteq> None
   \<and> (7 :: u64) \<noteq> KCOV_TRACE_PC
   \<and> (7 :: u64) \<noteq> KCOV_TRACE_CMP
   \<and> kcov_ioctl_locked cfg0 1 (\<lambda>i. True) 0 KCOV_ENABLE 7 no_remote_arg (mapped_state 4)
        = Some (Inl EINVAL, mapped_state 4)
   \<and> kcov_ioctl_locked cfg0 1 (\<lambda>i. True) 0 KCOV_REMOTE_ENABLE 0
        ((remote_arg_of [0x42])\<lparr>trace_mode := 7\<rparr>) (mapped_state 4)
        = Some (Inl EINVAL, mapped_state 4)
   \<and> kcov_ioctl_locked cfg0 1 (\<lambda>i. True) 1 KCOV_ENABLE 7 no_remote_arg second_mapped_state
        = Some (Inl EBUSY, second_mapped_state)"
proof -
  let ?k = "\<lparr>k_refcount = 1, k_mode = KCOV_MODE_INIT, k_size = 4,
                       k_area = Some 0, k_t = None, k_remote = False,
                       k_remote_size = 0, k_sequence = 1\<rparr>"
  let ?k1 = "\<lparr>k_refcount = 1, k_mode = KCOV_MODE_INIT, k_size = 4,
                       k_area = Some 1, k_t = None, k_remote = False,
                       k_remote_size = 0, k_sequence = 1\<rparr>"
  have h1: "kcovs (mapped_state 4) 0 = Some ?k" by (simp add: mapped_state_def)
  have h2: "k_mode ?k = KCOV_MODE_INIT" by simp
  have h3: "k_area ?k \<noteq> None" by simp
  have h4: "k_t ?k = None" by simp
  have h5: "kcov (tasks (mapped_state 4) 1) = None" by (simp add: mapped_state_def idle_task_def)
  have h6: "(7 :: u64) \<noteq> KCOV_TRACE_PC" by (simp add: KCOV_TRACE_PC_def)
  have h7: "(7 :: u64) = KCOV_TRACE_CMP \<longrightarrow> \<not> CONFIG_KCOV_ENABLE_COMPARISONS cfg0"
    by (simp add: KCOV_TRACE_CMP_def)
  have u: "ucast (trace_mode ((remote_arg_of [0x42])\<lparr>trace_mode := 7\<rparr>)) = (7 :: u64)" by simp
  have c: "(7 :: u64) \<noteq> KCOV_TRACE_CMP" by (simp add: KCOV_TRACE_CMP_def)
  have g1: "kcovs second_mapped_state 1 = Some ?k1" by (simp add: second_mapped_state_def)
  have g2: "k_mode ?k1 = KCOV_MODE_INIT" by simp
  have g3: "k_area ?k1 \<noteq> None" by simp
  have g4: "k_t ?k1 = None" by simp
  have g5: "kcov (tasks second_mapped_state 1) \<noteq> None" by (simp add: second_mapped_state_def)
  note t1 = invalid_trace_mode_rejected [OF h1 h2 h3 h4 h6 h7,
      of 1 "\<lambda>i. True" no_remote_arg 0, THEN conjunct1]
  note t2 = invalid_trace_mode_rejected [OF h1 h2 h3 h4 h6 h7,
      of 1 "\<lambda>i. True" "(remote_arg_of [0x42])\<lparr>trace_mode := 7\<rparr>" 0, THEN conjunct2, rule_format, OF u]
  note t3 = invalid_trace_mode_rejected [OF g1 g2 g3 g4 h6 h7,
      of 1 "\<lambda>i. True" no_remote_arg 0, THEN conjunct1]
  show ?thesis using h1 h5 h6 c g5 t1 t2 t3 by simp
qed

subsection \<open>An owner implies a trace mode\<close>

lemma JK_D: "JK m \<Longrightarrow> m kp = Some k \<Longrightarrow> desc_ok k"
  by (simp add: JK_def)

lemma JK_mode:
  "JK m \<Longrightarrow> m kp = Some k \<Longrightarrow> k_t k \<noteq> None \<Longrightarrow>
   k_mode k = KCOV_MODE_TRACE_PC \<or> k_mode k = KCOV_MODE_TRACE_CMP"
  using JK_D [of m kp k] by (auto simp: desc_ok_def)

lemma JK_disabled: "JK m \<Longrightarrow> m kp = Some k \<Longrightarrow> k_mode k = KCOV_MODE_DISABLED \<Longrightarrow> k_t k = None"
  using JK_D [of m kp k] by (auto simp: desc_ok_def)

lemma JK_kcovs_D: "JK (kcovs s) \<Longrightarrow> kcovs s kp = Some k \<Longrightarrow> desc_ok k"
  by (rule JK_D)

lemma JK_kcovs_disabled:
  "JK (kcovs s) \<Longrightarrow> kcovs s kp = Some k \<Longrightarrow> k_mode k = KCOV_MODE_DISABLED \<Longrightarrow> k_t k = None"
  by (rule JK_disabled)

lemma desc_ok_refcount [simp]: "desc_ok (k\<lparr>k_refcount := r\<rparr>) = desc_ok k"
  by (simp add: desc_ok_def)

lemma case_sum_eq_Some:
  "((case a of Inl e \<Rightarrow> f e | Inr u \<Rightarrow> g u) = Some z)
     = ((\<exists>e. a = Inl e \<and> f e = Some z) \<or> (\<exists>u. a = Inr u \<and> g u = Some z))"
  by (cases a) auto

lemma JK_upd: "JK m \<Longrightarrow> desc_ok k' \<Longrightarrow> JK (m(kp \<mapsto> k'))"
  by (simp add: JK_def)

lemma JK_del: "JK m \<Longrightarrow> JK (m(kp := None))"
  by (simp add: JK_def)

lemma JK_empty: "JK Map.empty"
  by (simp add: JK_def)

lemma kcov_reset_kcovs:
  "kcov_reset kp s = Some s' \<Longrightarrow>
   \<exists>k. kcovs s kp = Some k \<and> kcovs s' = (kcovs s)(kp \<mapsto> k\<lparr>k_t := None, k_mode := KCOV_MODE_INIT,
           k_remote := False, k_remote_size := 0, k_sequence := k_sequence k + 1\<rparr>)"
  by (auto simp: kcov_reset_def split: option.splits)

lemma kcov_remote_reset_kcovs:
  "kcov_remote_reset kp s = Some s' \<Longrightarrow>
   \<exists>k. kcovs s kp = Some k \<and> kcovs s' = (kcovs s)(kp \<mapsto> k\<lparr>k_t := None, k_mode := KCOV_MODE_INIT,
           k_remote := False, k_remote_size := 0, k_sequence := k_sequence k + 1\<rparr>)"
  by (auto simp: kcov_remote_reset_def dest!: kcov_reset_kcovs)

lemma kcov_get_kcovs:
  "kcov_get kp s = Some s' \<Longrightarrow>
   \<exists>k. kcovs s kp = Some k \<and> kcovs s' = (kcovs s)(kp \<mapsto> k\<lparr>k_refcount := k_refcount k + 1\<rparr>)"
  by (auto simp: kcov_get_def split: option.splits)

lemma kcov_put_kcovs:
  assumes "kcov_put kp s = Some s'"
  shows "\<exists>k. kcovs s kp = Some k \<and>
           (kcovs s' = (kcovs s)(kp \<mapsto> k\<lparr>k_refcount := k_refcount k - 1\<rparr>)
            \<or> kcovs s' = (kcovs s)(kp := None))"
proof -
  from assms obtain k where k: "kcovs s kp = Some k"
    by (auto simp: kcov_put_def split: option.splits)
  let ?s1 = "s\<lparr>kcovs := (kcovs s)(kp \<mapsto> k\<lparr>k_refcount := k_refcount k - 1\<rparr>)\<rparr>"
  show ?thesis
  proof (cases "k_refcount k - 1 = 0")
    case False
    then have "s' = ?s1" using assms k by (simp add: kcov_put_def Let_def)
    then show ?thesis using k by simp
  next
    case True
    then have "do { s2 \<leftarrow> kcov_remote_reset kp ?s1; k2 \<leftarrow> kcovs s2 kp;
                   Some ((vfree (k_area k2) s2)\<lparr>kcovs := (kcovs (vfree (k_area k2) s2))(kp := None)\<rparr>) }
               = Some s'"
      using assms k by (simp add: kcov_put_def Let_def)
    then obtain s2 and k2 :: kcov where r: "kcov_remote_reset kp ?s1 = Some s2"
      and s': "s' = (vfree (k_area k2) s2)\<lparr>kcovs := (kcovs (vfree (k_area k2) s2))(kp := None)\<rparr>"
      by (auto simp: Option.bind_eq_Some_conv)
    from kcov_remote_reset_kcovs [OF r] obtain k1 where
      "kcovs s2 = (kcovs ?s1)(kp \<mapsto> k1\<lparr>k_t := None, k_mode := KCOV_MODE_INIT,
           k_remote := False, k_remote_size := 0, k_sequence := k_sequence k1 + 1\<rparr>)"
      by blast
    then have "kcovs s' = (kcovs s)(kp := None)"
      using s' by (simp add: vfree_def split: option.splits)
    then show ?thesis using k by simp
  qed
qed

lemma JK_kcov_reset: "kcov_reset kp s = Some s' \<Longrightarrow> JK (kcovs s) \<Longrightarrow> JK (kcovs s')"
  by (auto dest!: kcov_reset_kcovs intro!: JK_upd simp: desc_ok_def)

lemma JK_kcov_remote_reset: "kcov_remote_reset kp s = Some s' \<Longrightarrow> JK (kcovs s) \<Longrightarrow> JK (kcovs s')"
  by (auto dest!: kcov_remote_reset_kcovs intro!: JK_upd simp: desc_ok_def)

lemma JK_kcov_get: "kcov_get kp s = Some s' \<Longrightarrow> JK (kcovs s) \<Longrightarrow> JK (kcovs s')"
proof -
  assume g: "kcov_get kp s = Some s'" and j: "JK (kcovs s)"
  from kcov_get_kcovs [OF g] obtain k where k: "kcovs s kp = Some k"
    and s': "kcovs s' = (kcovs s)(kp \<mapsto> k\<lparr>k_refcount := k_refcount k + 1\<rparr>)"
    by blast
  have "desc_ok (k\<lparr>k_refcount := k_refcount k + 1\<rparr>)" using JK_D [OF j k] by simp
  then show ?thesis unfolding s' by (rule JK_upd [OF j])
qed

lemma JK_kcov_put: "kcov_put kp s = Some s' \<Longrightarrow> JK (kcovs s) \<Longrightarrow> JK (kcovs s')"
proof -
  assume p: "kcov_put kp s = Some s'" and j: "JK (kcovs s)"
  from kcov_put_kcovs [OF p] obtain k where k: "kcovs s kp = Some k"
    and c: "kcovs s' = (kcovs s)(kp \<mapsto> k\<lparr>k_refcount := k_refcount k - 1\<rparr>)
            \<or> kcovs s' = (kcovs s)(kp := None)" by blast
  have ok: "desc_ok (k\<lparr>k_refcount := k_refcount k - 1\<rparr>)" using JK_D [OF j k] by simp
  from c show ?thesis
  proof
    assume e: "kcovs s' = (kcovs s)(kp \<mapsto> k\<lparr>k_refcount := k_refcount k - 1\<rparr>)"
    show ?thesis unfolding e by (rule JK_upd [OF j ok])
  next
    assume e: "kcovs s' = (kcovs s)(kp := None)"
    show ?thesis unfolding e by (rule JK_del [OF j])
  qed
qed

lemma kcovs_area_write: "area_write a i v s = Some s' \<Longrightarrow> kcovs s' = kcovs s"
  by (auto simp: area_write_def split: option.splits if_splits)

lemma kcovs_area_memcpy: "area_memcpy d i a j n s = Some s' \<Longrightarrow> kcovs s' = kcovs s"
  by (auto simp: area_memcpy_def split: option.splits if_splits)

lemma kcovs_trace_pc: "sanitizer_cov_trace_pc cfg it cur ip s = Some s' \<Longrightarrow> kcovs s' = kcovs s"
  by (auto simp: sanitizer_cov_trace_pc_def Let_def Option.bind_eq_Some_conv
      split: if_splits dest!: kcovs_area_write)

lemma kcovs_write_comp_data:
  "write_comp_data cfg it cur ty a1 a2 ip s = Some s' \<Longrightarrow> kcovs s' = kcovs s"
  by (auto simp: write_comp_data_def Let_def Option.bind_eq_Some_conv
      split: if_splits dest!: kcovs_area_write)

lemma kcovs_trace_switch_loop:
  "trace_switch_loop cfg it cur ty v ip cs s = Some s' \<Longrightarrow> kcovs s' = kcovs s"
  by (induction cs arbitrary: s) (auto split: option.splits dest!: kcovs_write_comp_data)

lemma kcovs_trace_switch:
  "sanitizer_cov_trace_switch cfg it cur v cs ip s = Some s' \<Longrightarrow> kcovs s' = kcovs s"
  by (auto simp: sanitizer_cov_trace_switch_def Let_def split: if_splits
      dest!: kcovs_trace_switch_loop)

lemma kcovs_move_entries:
  "move_entries d c a dl sl cs es s = Some s' \<Longrightarrow> kcovs s' = kcovs s"
  by (auto simp: move_entries_def Let_def Option.bind_eq_Some_conv split: if_splits
      dest!: kcovs_area_write kcovs_area_memcpy)

lemma kcovs_move_area: "kcov_move_area m d c a s = Some s' \<Longrightarrow> kcovs s' = kcovs s"
  by (cases m) (auto simp: kcov_move_area_def Option.bind_eq_Some_conv dest!: kcovs_move_entries)

lemma kcovs_remote_area_put: "kcov_remote_area_put a n s = Some s' \<Longrightarrow> kcovs s' = kcovs s"
  by (auto simp: kcov_remote_area_put_def split: option.splits if_splits)

lemma kcovs_remote_area_get: "kcov_remote_area_get n s = (a, s') \<Longrightarrow> kcovs s' = kcovs s"
  by (auto simp: kcov_remote_area_get_def split: option.splits)

lemma JK_remote_enable_loop:
  "remote_enable_loop kp km i hs s = Some (r, s') \<Longrightarrow> JK (kcovs s) \<Longrightarrow> JK (kcovs s')"
proof (induction hs arbitrary: s i)
  case Nil
  then show ?case by simp
next
  case (Cons h hs)
  show ?case
  proof (cases "kcov_remote_find s h \<noteq> None \<or> \<not> km i")
    case True
    then obtain s1 where "kcov_remote_reset kp s = Some s1" and "s' = s1"
      using Cons.prems(1) by (auto simp: Option.bind_eq_Some_conv split: if_splits)
    then show ?thesis using JK_kcov_remote_reset Cons.prems(2) by blast
  next
    case False
    then have "remote_enable_loop kp km (Suc i) hs (s\<lparr>kcov_remote_map := (h, kp) # kcov_remote_map s\<rparr>)
                 = Some (r, s')"
      using Cons.prems(1) by simp
    then show ?thesis using Cons.IH Cons.prems(2) by fastforce
  qed
qed

lemma JK_ioctl:
  "kcov_ioctl_locked cfg cur km kp cmd arg ra s = Some (res, s') \<Longrightarrow> JK (kcovs s) \<Longrightarrow> JK (kcovs s')"
  apply (cases cmd)
  apply (auto simp: kcov_ioctl_locked_def Let_def kcov_start_def kcov_get_mode_def
            kcov_task_init_def kcov_stop_def case_sum_eq_Some
            Option.bind_eq_Some_conv split: if_splits option.splits
         dest!: JK_kcov_get JK_kcov_put JK_kcov_reset JK_kcov_remote_reset JK_remote_enable_loop
         intro!: JK_upd simp: desc_ok_def)
  apply (erule JK_kcovs_disabled, assumption, assumption)
  done

lemma JK_open: "JK (kcovs s) \<Longrightarrow> JK (kcovs (snd (kcov_open a s)))"
  by (cases a) (auto simp: kcov_open_def desc_ok_def intro!: JK_upd)

lemma JK_mmap:
  assumes m: "kcov_mmap kp off len a s = Some (r, s')" and j: "JK (kcovs s)"
  shows "JK (kcovs s')"
proof (cases a)
  case None
  then show ?thesis using m j by (simp add: kcov_mmap_def)
next
  case (Some p)
  from m Some obtain k where k: "kcovs s kp = Some k"
    by (auto simp: kcov_mmap_def Let_def Option.bind_eq_Some_conv)
  from m Some k have c: "kcovs s' = kcovs s \<or> kcovs s' = (kcovs s)(kp \<mapsto> k\<lparr>k_area := Some p\<rparr>)"
    by (auto simp: kcov_mmap_def Let_def vfree_def split: if_splits)
  have ok: "desc_ok (k\<lparr>k_area := Some p\<rparr>)" using JK_D [OF j k] by (simp add: desc_ok_def)
  from c show ?thesis
  proof
    assume "kcovs s' = kcovs s"
    then show ?thesis using j by simp
  next
    assume e: "kcovs s' = (kcovs s)(kp \<mapsto> k\<lparr>k_area := Some p\<rparr>)"
    show ?thesis unfolding e by (rule JK_upd [OF j ok])
  qed
qed

lemma JK_close: "kcov_close kp s = Some (r, s') \<Longrightarrow> JK (kcovs s) \<Longrightarrow> JK (kcovs s')"
  by (auto simp: kcov_close_def Option.bind_eq_Some_conv dest!: JK_kcov_put)

lemma JK_task_exit: "kcov_task_exit t s = Some s' \<Longrightarrow> JK (kcovs s) \<Longrightarrow> JK (kcovs s')"
  by (auto simp: kcov_task_exit_def Let_def kcov_task_init_def kcov_stop_def
        Option.bind_eq_Some_conv split: if_splits option.splits
      dest!: JK_kcov_put JK_kcov_reset JK_kcov_remote_reset)

lemma JK_remote_stop: "kcov_remote_stop t s = Some s' \<Longrightarrow> JK (kcovs s) \<Longrightarrow> JK (kcovs s')"
  by (auto simp: kcov_remote_stop_def Let_def kcov_stop_def
        Option.bind_eq_Some_conv split: if_splits option.splits
      dest!: JK_kcov_put kcovs_move_area kcovs_remote_area_put)

lemma JK_remote_start: "kcov_remote_start it t vm h s = Some s' \<Longrightarrow> JK (kcovs s) \<Longrightarrow> JK (kcovs s')"
  by (auto simp: kcov_remote_start_def Let_def kcov_start_def kcov_remote_area_get_def
        Option.bind_eq_Some_conv split: if_splits option.splits
      dest!: JK_kcov_get JK_kcov_put kcovs_area_write)

lemma JK_exec: "exec cfg ev s = Some s' \<Longrightarrow> JK (kcovs s) \<Longrightarrow> JK (kcovs s')"
proof (cases ev)
  case (Open a)
  assume "exec cfg ev s = Some s'" "JK (kcovs s)"
  then show ?thesis using Open JK_open [of s a] by auto
next
  case (Close kp)
  assume "exec cfg ev s = Some s'" "JK (kcovs s)"
  then show ?thesis using Close by (auto dest: JK_close)
next
  case (Mmap kp off len a)
  assume "exec cfg ev s = Some s'" "JK (kcovs s)"
  then show ?thesis using Mmap by (auto dest: JK_mmap)
next
  case (Ioctl cur km kp cmd arg ra)
  assume "exec cfg ev s = Some s'" "JK (kcovs s)"
  then show ?thesis using Ioctl by (auto dest: JK_ioctl)
next
  case (Task_exit t)
  assume "exec cfg ev s = Some s'" "JK (kcovs s)"
  then show ?thesis using Task_exit by (auto dest: JK_task_exit)
next
  case (Remote_start it t vm h)
  assume "exec cfg ev s = Some s'" "JK (kcovs s)"
  then show ?thesis using Remote_start by (auto dest: JK_remote_start)
next
  case (Remote_stop t)
  assume "exec cfg ev s = Some s'" "JK (kcovs s)"
  then show ?thesis using Remote_stop by (auto dest: JK_remote_stop)
next
  case (Trace_pc it t ip)
  assume "exec cfg ev s = Some s'" "JK (kcovs s)"
  then show ?thesis using Trace_pc by (auto dest!: kcovs_trace_pc)
next
  case (Trace_cmp it t ty a1 a2 ip)
  assume "exec cfg ev s = Some s'" "JK (kcovs s)"
  then show ?thesis using Trace_cmp by (auto dest!: kcovs_write_comp_data)
next
  case (Trace_switch it t v cs ip)
  assume "exec cfg ev s = Some s'" "JK (kcovs s)"
  then show ?thesis using Trace_switch by (auto dest!: kcovs_trace_switch)
next
  case (User_store kp i v)
  assume "exec cfg ev s = Some s'" "JK (kcovs s)"
  then show ?thesis using User_store
    by (auto split: option.splits dest!: kcovs_area_write)
qed

lemma JK_run: "run cfg evs s = Some s' \<Longrightarrow> JK (kcovs s) \<Longrightarrow> JK (kcovs s')"
  by (induction evs arbitrary: s) (auto split: option.splits dest: JK_exec)

lemma JK_boot: "JK (kcovs boot_state)"
  by (simp add: JK_def boot_state_def)

lemma owner_implies_tracing:
  assumes "run cfg evs boot_state = Some s" and "kcovs s kp = Some k" and "k_t k \<noteq> None"
  shows "k_mode k = KCOV_MODE_TRACE_PC \<or> k_mode k = KCOV_MODE_TRACE_CMP"
  using JK_mode [OF JK_run [OF assms(1) JK_boot] assms(2,3)] .

subsection \<open>A second enable\<close>

text \<open>
  Claim C6 as stated fails: task 1 has enabled descriptor 0, task 2 calls
  \<open>KCOV_ENABLE\<close> on it, and the answer is \<open>EINVAL\<close>, not \<open>EBUSY\<close>: the
  descriptor left \<open>KCOV_MODE_INIT\<close> when task 1 enabled it, and the mode is checked
  before the owner.
\<close>

theorem second_enable_same_descriptor_counterexample:
  "run cfg0 (setup_calls 4 @ [enable_call KCOV_TRACE_PC]) boot_state
     = Some (enabled_state 4 KCOV_MODE_TRACE_PC)
   \<and> map_option k_t (kcovs (enabled_state 4 KCOV_MODE_TRACE_PC) 0) = Some (Some 1)
   \<and> kcov_ioctl_locked cfg0 2 (\<lambda>i. True) 0 KCOV_ENABLE KCOV_TRACE_PC no_remote_arg
        (enabled_state 4 KCOV_MODE_TRACE_PC)
       = Some (Inl EINVAL, enabled_state 4 KCOV_MODE_TRACE_PC)
   \<and> kcov_ioctl_locked cfg0 2 (\<lambda>i. True) 0 KCOV_ENABLE KCOV_TRACE_PC no_remote_arg
        (enabled_state 4 KCOV_MODE_TRACE_PC)
       \<noteq> Some (Inl EBUSY, enabled_state 4 KCOV_MODE_TRACE_PC)"
  using reach_enabled_state(2) by (simp add: kcov_ioctl_locked_def enabled_state_def)

text \<open>
  The owner pointer of a descriptor and the descriptor pointer of a task are set
  together by \<open>KCOV_ENABLE\<close> but are not kept in step afterwards.
  \<open>kcov_remote_stop\<close> does not test that the task is inside a remote window: run by
  a task that collects on its own descriptor it clears \<open>t->kcov\<close> and leaves
  \<open>kcov->t\<close>, and the next \<open>KCOV_ENABLE\<close> of the task on a second descriptor
  succeeds. Both descriptors then name task 1 as their owner.
\<close>

lemma owner_of_two_descriptors_example:
  "\<exists>s. run cfg0 (setup_calls 4 @ [enable_call KCOV_TRACE_PC, Remote_stop 1] @ second_setup_calls
                   @ [Ioctl 1 (\<lambda>i. True) 1 KCOV_ENABLE KCOV_TRACE_PC no_remote_arg]) boot_state
          = Some s
       \<and> map_option k_t (kcovs s 0) = Some (Some 1)
       \<and> map_option k_t (kcovs s 1) = Some (Some 1)"
proof -
  have a: "run cfg0 ([Remote_stop 1] @ second_setup_calls
                   @ [Ioctl 1 (\<lambda>i. True) 1 KCOV_ENABLE KCOV_TRACE_PC no_remote_arg])
             (enabled_state 4 KCOV_MODE_TRACE_PC)
           = Some \<lparr>kcovs = [0 \<mapsto> \<lparr>k_refcount = 1, k_mode = KCOV_MODE_TRACE_PC, k_size = 4,
                       k_area = Some 0, k_t = Some 1, k_remote = False,
                       k_remote_size = 0, k_sequence = 1\<rparr>,
               1 \<mapsto> \<lparr>k_refcount = 2, k_mode = KCOV_MODE_TRACE_PC, k_size = 4,
                       k_area = Some 1, k_t = Some 1, k_remote = False,
                       k_remote_size = 0, k_sequence = 1\<rparr>],
      tasks = (\<lambda>t. idle_task)(1 := \<lparr>kcov_mode = KCOV_MODE_TRACE_PC, kcov_size = 4,
                                      kcov_area = Some 1, kcov = Some 1, kcov_sequence = 1\<rparr>),
      mem = [0 \<mapsto> [0, 0, 0, 0], 1 \<mapsto> [0, 0, 0, 0]],
      kcov_remote_map = [], kcov_remote_areas = [(0, 4)]\<rparr>"
    by (simp add: second_setup_calls_def kcov_open_def enabled_state_def kcov_ioctl_locked_def
      INT_MAX_def sizeof_long_def kcov_mmap_def Let_def zeroes4 kcov_remote_stop_def kcov_stop_def
      kcov_remote_area_put_def kcov_put_def kcov_get_mode_def KCOV_TRACE_PC_def kcov_start_def
      kcov_get_def fun_upd_twist)
  have "run cfg0 ((setup_calls 4 @ [enable_call KCOV_TRACE_PC]) @ ([Remote_stop 1] @ second_setup_calls
                   @ [Ioctl 1 (\<lambda>i. True) 1 KCOV_ENABLE KCOV_TRACE_PC no_remote_arg])) boot_state
        = Some \<lparr>kcovs = [0 \<mapsto> \<lparr>k_refcount = 1, k_mode = KCOV_MODE_TRACE_PC, k_size = 4,
                       k_area = Some 0, k_t = Some 1, k_remote = False,
                       k_remote_size = 0, k_sequence = 1\<rparr>,
               1 \<mapsto> \<lparr>k_refcount = 2, k_mode = KCOV_MODE_TRACE_PC, k_size = 4,
                       k_area = Some 1, k_t = Some 1, k_remote = False,
                       k_remote_size = 0, k_sequence = 1\<rparr>],
      tasks = (\<lambda>t. idle_task)(1 := \<lparr>kcov_mode = KCOV_MODE_TRACE_PC, kcov_size = 4,
                                      kcov_area = Some 1, kcov = Some 1, kcov_sequence = 1\<rparr>),
      mem = [0 \<mapsto> [0, 0, 0, 0], 1 \<mapsto> [0, 0, 0, 0]],
      kcov_remote_map = [], kcov_remote_areas = [(0, 4)]\<rparr>"
    using reach_enabled_state(2) a by (simp only: run_append option.case)
  then show ?thesis by simp
qed

text \<open>
  Claim C6, amended. \<open>KCOV_ENABLE\<close> on a descriptor that has an owner, or by a task
  that has a descriptor, fails and leaves the state as it was; the error is
  \<open>EBUSY\<close> when the descriptor is in \<open>KCOV_MODE_INIT\<close> with a buffer and
  \<open>EINVAL\<close> otherwise. In every state reached from \<open>boot_state\<close> a descriptor
  that has an owner is in a trace mode, so there \<open>KCOV_ENABLE\<close> on an owned
  descriptor fails with \<open>EINVAL\<close>. A \<open>KCOV_ENABLE\<close> that succeeds was called on
  a descriptor without an owner by a task without a descriptor, and leaves the caller
  as the owner of the descriptor and the descriptor as the one of the caller.
\<close>

theorem enable_refused_when_attached:
  assumes k: "kcovs s kp = Some k"
  shows "(k_t k \<noteq> None \<or> kcov (tasks s cur) \<noteq> None \<longrightarrow>
            kcov_ioctl_locked cfg cur kmalloc kp KCOV_ENABLE arg ra s
              = Some (Inl (if k_mode k = KCOV_MODE_INIT \<and> k_area k \<noteq> None then EBUSY else EINVAL), s))
       \<and> (\<forall>evs. run cfg evs boot_state = Some s \<longrightarrow> k_t k \<noteq> None \<longrightarrow>
             kcov_ioctl_locked cfg cur kmalloc kp KCOV_ENABLE arg ra s = Some (Inl EINVAL, s))
       \<and> (\<forall>s'. kcov_ioctl_locked cfg cur kmalloc kp KCOV_ENABLE arg ra s = Some (Inr (), s') \<longrightarrow>
             k_t k = None \<and> kcov (tasks s cur) = None
             \<and> map_option k_t (kcovs s' kp) = Some (Some cur)
             \<and> kcov (tasks s' cur) = Some kp)"
proof (intro conjI)
  show r: "k_t k \<noteq> None \<or> kcov (tasks s cur) \<noteq> None \<longrightarrow>
            kcov_ioctl_locked cfg cur kmalloc kp KCOV_ENABLE arg ra s
              = Some (Inl (if k_mode k = KCOV_MODE_INIT \<and> k_area k \<noteq> None then EBUSY else EINVAL), s)"
    using k by (auto simp: kcov_ioctl_locked_def)
  show "\<forall>evs. run cfg evs boot_state = Some s \<longrightarrow> k_t k \<noteq> None \<longrightarrow>
             kcov_ioctl_locked cfg cur kmalloc kp KCOV_ENABLE arg ra s = Some (Inl EINVAL, s)"
  proof (intro allI impI)
    fix evs assume reach: "run cfg evs boot_state = Some s" and own: "k_t k \<noteq> None"
    have "k_mode k = KCOV_MODE_TRACE_PC \<or> k_mode k = KCOV_MODE_TRACE_CMP"
      by (rule owner_implies_tracing [OF reach k own])
    then have "k_mode k \<noteq> KCOV_MODE_INIT" by auto
    then show "kcov_ioctl_locked cfg cur kmalloc kp KCOV_ENABLE arg ra s = Some (Inl EINVAL, s)"
      using r own by simp
  qed
  show "\<forall>s'. kcov_ioctl_locked cfg cur kmalloc kp KCOV_ENABLE arg ra s = Some (Inr (), s') \<longrightarrow>
             k_t k = None \<and> kcov (tasks s cur) = None
             \<and> map_option k_t (kcovs s' kp) = Some (Some cur)
             \<and> kcov (tasks s' cur) = Some kp"
    using k
    by (auto simp: kcov_ioctl_locked_def kcov_get_def kcov_start_def Let_def
        split: if_splits sum.splits)
qed

theorem enable_refused_when_attached_witness:
  "run cfg0 (setup_calls 4 @ [enable_call KCOV_TRACE_PC]) boot_state
     = Some (enabled_state 4 KCOV_MODE_TRACE_PC)
   \<and> map_option k_t (kcovs (enabled_state 4 KCOV_MODE_TRACE_PC) 0) = Some (Some 1)
   \<and> kcov (tasks (enabled_state 4 KCOV_MODE_TRACE_PC) 1) \<noteq> None
   \<and> kcov_ioctl_locked cfg0 1 (\<lambda>i. True) 0 KCOV_ENABLE KCOV_TRACE_PC no_remote_arg
        (enabled_state 4 KCOV_MODE_TRACE_PC)
       = Some (Inl EINVAL, enabled_state 4 KCOV_MODE_TRACE_PC)
   \<and> kcov_ioctl_locked cfg0 1 (\<lambda>i. True) 0 KCOV_ENABLE KCOV_TRACE_PC no_remote_arg
        duplicate_failed_state
       = Some (Inl EBUSY, duplicate_failed_state)
   \<and> kcov_ioctl_locked cfg0 1 (\<lambda>i. True) 0 KCOV_ENABLE KCOV_TRACE_PC no_remote_arg
        (mapped_state 4)
       = Some (Inr (), enabled_state 4 KCOV_MODE_TRACE_PC)
   \<and> kcov (tasks (mapped_state 4) 1) = None"
proof -
  let ?s = "enabled_state 4 KCOV_MODE_TRACE_PC"
  let ?k = "\<lparr>k_refcount = 2, k_mode = KCOV_MODE_TRACE_PC, k_size = 4,
                       k_area = Some 0, k_t = Some 1, k_remote = False,
                       k_remote_size = 0, k_sequence = 1\<rparr>"
  let ?kd = "\<lparr>k_refcount = 1, k_mode = KCOV_MODE_INIT, k_size = 4,
                       k_area = Some 0, k_t = None, k_remote = False,
                       k_remote_size = 0, k_sequence = 2\<rparr>"
  let ?km = "\<lparr>k_refcount = 1, k_mode = KCOV_MODE_INIT, k_size = 4,
                       k_area = Some 0, k_t = None, k_remote = False,
                       k_remote_size = 0, k_sequence = 1\<rparr>"
  have h1: "kcovs ?s 0 = Some ?k" by (simp add: enabled_state_def)
  have h3: "kcov (tasks ?s 1) \<noteq> None" by (simp add: enabled_state_def)
  have h4: "run cfg0 (setup_calls 4 @ [enable_call KCOV_TRACE_PC]) boot_state = Some ?s"
    by (rule reach_enabled_state(2))
  have h5: "k_t ?k \<noteq> None" by simp
  note t = enable_refused_when_attached [OF h1, of 1 cfg0 "\<lambda>i. True" KCOV_TRACE_PC no_remote_arg,
              THEN conjunct2, THEN conjunct1, rule_format, OF h4 h5]
  have o: "map_option k_t (kcovs ?s 0) = Some (Some 1)" using h1 by simp
  have d1: "kcovs duplicate_failed_state 0 = Some ?kd" by (simp add: duplicate_failed_state_def)
  have d2: "k_t ?kd \<noteq> None \<or> kcov (tasks duplicate_failed_state 1) \<noteq> None"
    by (simp add: duplicate_failed_state_def)
  note u = enable_refused_when_attached [OF d1, of 1 cfg0 "\<lambda>i. True" KCOV_TRACE_PC no_remote_arg,
              THEN conjunct1, rule_format, OF d2]
  have u': "kcov_ioctl_locked cfg0 1 (\<lambda>i. True) 0 KCOV_ENABLE KCOV_TRACE_PC no_remote_arg
        duplicate_failed_state = Some (Inl EBUSY, duplicate_failed_state)"
    using u by simp
  have m1: "kcovs (mapped_state 4) 0 = Some ?km" by (simp add: mapped_state_def)
  have m2: "kcov_ioctl_locked cfg0 1 (\<lambda>i. True) 0 KCOV_ENABLE KCOV_TRACE_PC no_remote_arg
        (mapped_state 4) = Some (Inr (), ?s)"
    by (simp add: kcov_ioctl_locked_def mapped_state_def enabled_state_def
      kcov_get_mode_def KCOV_TRACE_PC_def cfg0_def kcov_start_def kcov_get_def
      Let_def idle_task_def)
  note v = enable_refused_when_attached [OF m1, of 1 cfg0 "\<lambda>i. True" KCOV_TRACE_PC no_remote_arg,
              THEN conjunct2, THEN conjunct2, rule_format, OF m2]
  show ?thesis using h4 o h3 t u' m2 v by simp
qed

subsection \<open>A second mmap\<close>

text \<open>
  Claim C4 as stated fails: a second \<open>mmap\<close> of the right length on a descriptor
  that has its buffer returns 0, not an error.
\<close>

theorem second_mmap_counterexample:
  "map_option k_area (kcovs (mapped_state 4) 0) = Some (Some 0)
   \<and> kcov_mmap 0 0 32 (Some 1) (mapped_state 4) = Some (Inr (), mapped_state 4)"
  by (simp add: kcov_mmap_def mapped_state_def vfree_def sizeof_long_def Let_def fun_upd_twist)

text \<open>
  Claim C4, amended. On a descriptor that has its buffer every further \<open>mmap\<close>
  leaves the state as it was, the attached buffer included; the candidate region is
  allocated and freed again. The call returns \<open>ENOMEM\<close> when the allocation fails,
  \<open>EINVAL\<close> when the descriptor is not in \<open>KCOV_MODE_INIT\<close>, the offset is not
  zero or the length is not \<open>size * sizeof(unsigned long)\<close>, and 0 otherwise.
\<close>

theorem second_mmap_discards_candidate:
  assumes "kcovs s kp = Some k"
    and "k_area k \<noteq> None"
    and "\<forall>p. vmalloc_user = Some p \<longrightarrow> mem s p = None"
  shows "kcov_mmap kp vm_pgoff vm_len vmalloc_user s =
           Some (case vmalloc_user of
                   None \<Rightarrow> Inl ENOMEM
                 | Some p \<Rightarrow>
                     if k_mode k \<noteq> KCOV_MODE_INIT \<or> vm_pgoff \<noteq> 0
                        \<or> vm_len \<noteq> ucast (k_size k) * sizeof_long
                     then Inl EINVAL else Inr (),
                 s)"
proof (cases vmalloc_user)
  case None
  then show ?thesis by (simp add: kcov_mmap_def)
next
  case (Some p)
  then have "mem s p = None" using assms(3) by simp
  then have "(mem s)(p := None) = mem s" by (simp add: fun_upd_idem)
  then show ?thesis
    using Some assms(1,2) by (auto simp: kcov_mmap_def vfree_def Let_def)
qed

theorem second_mmap_discards_candidate_witness:
  "kcovs (mapped_state 4) 0 \<noteq> None
   \<and> mem (mapped_state 4) 1 = None
   \<and> kcov_mmap 0 0 32 (Some 1) (mapped_state 4) = Some (Inr (), mapped_state 4)
   \<and> kcov_mmap 0 0 64 (Some 1) (mapped_state 4) = Some (Inl EINVAL, mapped_state 4)"
proof -
  let ?k = "\<lparr>k_refcount = 1, k_mode = KCOV_MODE_INIT, k_size = 4,
                       k_area = Some 0, k_t = None, k_remote = False,
                       k_remote_size = 0, k_sequence = 1\<rparr>"
  have h1: "kcovs (mapped_state 4) 0 = Some ?k" by (simp add: mapped_state_def)
  have h2: "k_area ?k \<noteq> None" by simp
  have h3: "\<forall>p. Some (1 :: nat) = Some p \<longrightarrow> mem (mapped_state 4) p = None"
    by (simp add: mapped_state_def)
  have m: "mem (mapped_state 4) 1 = None" by (simp add: mapped_state_def)
  show ?thesis
    using h1 m second_mmap_discards_candidate [OF h1 h2 h3, of 0 32]
      second_mmap_discards_candidate [OF h1 h2 h3, of 0 64]
    by (simp add: sizeof_long_def)
qed

subsection \<open>Rollback of a failed remote enable\<close>

lemma kcov_remote_find_None: "kcov_remote_find s h = None \<longleftrightarrow> h \<notin> fst ` set (kcov_remote_map s)"
  by (force simp: kcov_remote_find_def find_None_iff)

lemma kcov_remote_reset_Some:
  "kcovs s kp = Some k \<Longrightarrow>
   kcov_remote_reset kp s =
     Some (s\<lparr>kcov_remote_map := filter (\<lambda>remote. snd remote \<noteq> kp) (kcov_remote_map s),
            kcovs := (kcovs s)(kp \<mapsto> k\<lparr>k_t := None, k_mode := KCOV_MODE_INIT,
                       k_remote := False, k_remote_size := 0, k_sequence := k_sequence k + 1\<rparr>)\<rparr>)"
  by (simp add: kcov_remote_reset_def kcov_reset_def)

lemma remote_enable_loop_duplicate:
  assumes "kcovs s kp = Some k"
    and "\<forall>j. kmalloc j"
    and "\<not> distinct hs \<or> (\<exists>h \<in> set hs. h \<in> fst ` set (kcov_remote_map s))"
  shows "remote_enable_loop kp kmalloc i hs s =
           Some (Inl EEXIST,
                 s\<lparr>kcov_remote_map := filter (\<lambda>remote. snd remote \<noteq> kp) (kcov_remote_map s),
                   kcovs := (kcovs s)(kp \<mapsto> k\<lparr>k_t := None, k_mode := KCOV_MODE_INIT,
                       k_remote := False, k_remote_size := 0, k_sequence := k_sequence k + 1\<rparr>)\<rparr>)"
  using assms
proof (induction hs arbitrary: s i)
  case Nil
  then show ?case by simp
next
  case (Cons h hs)
  show ?case
  proof (cases "h \<in> fst ` set (kcov_remote_map s)")
    case True
    then have "kcov_remote_find s h \<noteq> None" by (simp add: kcov_remote_find_None)
    then have "remote_enable_loop kp kmalloc i (h # hs) s
                 = do { s1 \<leftarrow> kcov_remote_reset kp s; Some (Inl EEXIST, s1) }"
      by simp
    then show ?thesis
      by (simp only: kcov_remote_reset_Some [OF Cons.prems(1)] Option.bind.bind_lunit)
  next
    case False
    let ?s1 = "s\<lparr>kcov_remote_map := (h, kp) # kcov_remote_map s\<rparr>"
    have f: "kcov_remote_find s h = None" using False by (simp add: kcov_remote_find_None)
    have p1: "kcovs ?s1 kp = Some k" using Cons.prems(1) by simp
    have p3: "\<not> distinct hs \<or> (\<exists>h' \<in> set hs. h' \<in> fst ` set (kcov_remote_map ?s1))"
      using Cons.prems(3) False by auto
    have "remote_enable_loop kp kmalloc i (h # hs) s = remote_enable_loop kp kmalloc (Suc i) hs ?s1"
      using f Cons.prems(2) by simp
    also have "\<dots> = Some (Inl EEXIST,
                 ?s1\<lparr>kcov_remote_map := filter (\<lambda>remote. snd remote \<noteq> kp) (kcov_remote_map ?s1),
                   kcovs := (kcovs ?s1)(kp \<mapsto> k\<lparr>k_t := None, k_mode := KCOV_MODE_INIT,
                       k_remote := False, k_remote_size := 0, k_sequence := k_sequence k + 1\<rparr>)\<rparr>)"
      by (rule Cons.IH [OF p1 Cons.prems(2) p3])
    also have "?s1\<lparr>kcov_remote_map := filter (\<lambda>remote. snd remote \<noteq> kp) (kcov_remote_map ?s1),
                   kcovs := (kcovs ?s1)(kp \<mapsto> k\<lparr>k_t := None, k_mode := KCOV_MODE_INIT,
                       k_remote := False, k_remote_size := 0, k_sequence := k_sequence k + 1\<rparr>)\<rparr>
                = s\<lparr>kcov_remote_map := filter (\<lambda>remote. snd remote \<noteq> kp) (kcov_remote_map s),
                   kcovs := (kcovs s)(kp \<mapsto> k\<lparr>k_t := None, k_mode := KCOV_MODE_INIT,
                       k_remote := False, k_remote_size := 0, k_sequence := k_sequence k + 1\<rparr>)\<rparr>"
      by (cases s) simp
    finally show ?thesis .
  qed
qed

text \<open>
  Claim C3 on the code. \<open>KCOV_REMOTE_ENABLE\<close> on a descriptor in
  \<open>KCOV_MODE_INIT\<close> with a buffer and no owner, by a task that has no descriptor,
  with a valid trace mode and no allocation failure: when a handle of the request is
  registered already or occurs twice in the request, the call returns \<open>EEXIST\<close>,
  the registry keeps exactly the entries of the other descriptors and the descriptor
  is reset (no owner, \<open>KCOV_MODE_INIT\<close>, sequence bumped). The task is not rolled
  back: \<open>kcov_remote_reset\<close> leaves \<open>t->kcov\<close> pointing to the descriptor,
  where the claim has the task unattached as before the call.
\<close>

theorem remote_enable_duplicate_rollback:
  assumes k: "kcovs s kp = Some k"
    and md: "k_mode k = KCOV_MODE_INIT"
    and ar: "k_area k \<noteq> None"
    and ow: "k_t k = None"
    and un: "kcov (tasks s cur) = None"
    and gm: "kcov_get_mode cfg (ucast (trace_mode ra)) = Inr m"
    and al: "\<forall>j. kmalloc j"
    and hs: "hs = take (unat (num_handles ra)) (handles ra)"
    and dup: "\<not> distinct hs \<or> (\<exists>h \<in> set hs. h \<in> fst ` set (kcov_remote_map s))"
  shows "kcov_ioctl_locked cfg cur kmalloc kp KCOV_REMOTE_ENABLE arg ra s =
           Some (Inl EEXIST,
                 s\<lparr>tasks := (tasks s)(cur := (tasks s cur)\<lparr>kcov := Some kp\<rparr>),
                   kcov_remote_map := filter (\<lambda>remote. snd remote \<noteq> kp) (kcov_remote_map s),
                   kcovs := (kcovs s)(kp \<mapsto> k\<lparr>k_remote := False, k_remote_size := 0,
                                                  k_sequence := k_sequence k + 1\<rparr>)\<rparr>)"
proof -
  let ?k2 = "k\<lparr>k_mode := m, k_t := Some cur, k_remote := True,
                k_remote_size := area_size ra\<rparr>"
  let ?s2 = "s\<lparr>tasks := (tasks s)(cur := (tasks s cur)\<lparr>kcov := Some kp\<rparr>),
               kcovs := (kcovs s)(kp \<mapsto> ?k2)\<rparr>"
  have p1: "kcovs ?s2 kp = Some ?k2" by simp
  have p3: "\<not> distinct hs \<or> (\<exists>h \<in> set hs. h \<in> fst ` set (kcov_remote_map ?s2))"
    using dup by simp
  have kk: "?k2\<lparr>k_t := None, k_mode := KCOV_MODE_INIT, k_remote := False, k_remote_size := 0,
               k_sequence := k_sequence ?k2 + 1\<rparr>
            = k\<lparr>k_remote := False, k_remote_size := 0, k_sequence := k_sequence k + 1\<rparr>"
    using md ow by (cases k) simp
  note loop = remote_enable_loop_duplicate [OF p1 al p3, of 0]
  have loop': "remote_enable_loop kp kmalloc 0 hs ?s2 =
      Some (Inl EEXIST,
                 s\<lparr>tasks := (tasks s)(cur := (tasks s cur)\<lparr>kcov := Some kp\<rparr>),
                   kcov_remote_map := filter (\<lambda>remote. snd remote \<noteq> kp) (kcov_remote_map s),
                   kcovs := (kcovs s)(kp \<mapsto> k\<lparr>k_remote := False, k_remote_size := 0,
                                                  k_sequence := k_sequence k + 1\<rparr>)\<rparr>)"
    using loop kk by (cases s) simp
  have "kcov_ioctl_locked cfg cur kmalloc kp KCOV_REMOTE_ENABLE arg ra s
          = do { (res, s3) \<leftarrow> remote_enable_loop kp kmalloc 0 hs ?s2;
                 (case res of Inl e \<Rightarrow> Some (Inl e, s3)
                  | Inr _ \<Rightarrow> do { s4 \<leftarrow> kcov_get kp s3; Some (Inr (), s4) }) }"
    using k md ar ow un gm hs by (auto simp: kcov_ioctl_locked_def Let_def)
  then show ?thesis by (simp only: loop' Option.bind.bind_lunit prod.case sum.case)
qed

text \<open>Task 1 asks for the handles \<open>[0x42, 0x42]\<close>.\<close>

theorem remote_enable_duplicate_rollback_witness:
  "kcov (tasks (mapped_state 4) 1) = None
   \<and> \<not> distinct [0x42 :: u64, 0x42]
   \<and> kcov_ioctl_locked cfg0 1 (\<lambda>i. True) 0 KCOV_REMOTE_ENABLE 0 (remote_arg_of [0x42, 0x42])
        (mapped_state 4)
       = Some (Inl EEXIST, duplicate_failed_state)
   \<and> kcov (tasks duplicate_failed_state 1) = Some 0
   \<and> kcov_remote_map duplicate_failed_state = kcov_remote_map (mapped_state 4)"
proof -
  let ?k = "\<lparr>k_refcount = 1, k_mode = KCOV_MODE_INIT, k_size = 4,
                       k_area = Some 0, k_t = None, k_remote = False,
                       k_remote_size = 0, k_sequence = 1\<rparr>"
  let ?ra = "remote_arg_of [0x42, 0x42]"
  have h1: "kcovs (mapped_state 4) 0 = Some ?k" by (simp add: mapped_state_def)
  have h2: "k_mode ?k = KCOV_MODE_INIT" by simp
  have h3: "k_area ?k \<noteq> None" by simp
  have h4: "k_t ?k = None" by simp
  have h5: "kcov (tasks (mapped_state 4) 1) = None" by (simp add: mapped_state_def idle_task_def)
  have h6: "kcov_get_mode cfg0 (ucast (trace_mode ?ra)) = Inr KCOV_MODE_TRACE_PC"
    by (simp add: remote_arg_of_def kcov_get_mode_def KCOV_TRACE_PC_def)
  have h7: "\<forall>j. (\<lambda>i. True) j" by simp
  have h8: "[0x42 :: u64, 0x42] = take (unat (num_handles ?ra)) (handles ?ra)"
    by (simp add: remote_arg_of_def)
  have h9: "\<not> distinct [0x42 :: u64, 0x42]
            \<or> (\<exists>h \<in> set [0x42 :: u64, 0x42]. h \<in> fst ` set (kcov_remote_map (mapped_state 4)))"
    by simp
  have nd: "\<not> distinct [0x42 :: u64, 0x42]" by simp
  have st: "(mapped_state 4)\<lparr>tasks := (tasks (mapped_state 4))(1 := (tasks (mapped_state 4) 1)\<lparr>kcov := Some 0\<rparr>),
                   kcov_remote_map := filter (\<lambda>remote. snd remote \<noteq> 0) (kcov_remote_map (mapped_state 4)),
                   kcovs := (kcovs (mapped_state 4))(0 \<mapsto> ?k\<lparr>k_remote := False, k_remote_size := 0,
                                                  k_sequence := k_sequence ?k + 1\<rparr>)\<rparr>
            = duplicate_failed_state"
    by (simp add: mapped_state_def duplicate_failed_state_def zeroes4)
  have a: "kcov (tasks duplicate_failed_state 1) = Some 0" by (simp add: duplicate_failed_state_def)
  have r: "kcov_remote_map duplicate_failed_state = kcov_remote_map (mapped_state 4)"
    by (simp add: duplicate_failed_state_def mapped_state_def)
  note t = remote_enable_duplicate_rollback [OF h1 h2 h3 h4 h5 h6 h7 h8 h9, of 0]
  show ?thesis using h5 nd t st a r by simp
qed

text \<open>The same task cannot enable the descriptor afterwards.\<close>

lemma reenable_after_failed_remote_enable:
  "kcov_ioctl_locked cfg0 1 (\<lambda>i. True) 0 KCOV_REMOTE_ENABLE 0 (remote_arg_of [0x42])
        duplicate_failed_state
       = Some (Inl EBUSY, duplicate_failed_state)"
  by (simp add: kcov_ioctl_locked_def duplicate_failed_state_def)

subsection \<open>Allocation failure in remote start\<close>

lemma kcov_move_area_null_src:
  "kcov_move_area m dst c None s = None \<or> kcov_move_area m dst c None s = Some s"
  by (cases m) (auto simp: kcov_move_area_def area_read_def Option.bind_eq_None_conv)

text \<open>
  Claim C8 on the code. \<open>kcov_remote_start\<close> in task context by a task that has
  no descriptor and no area, for a registered handle, with no free area of the wanted
  size and \<open>vmalloc\<close> failing: the reference is given back, the descriptor and
  everything else is as before, except that \<open>t->kcov\<close> still points to the
  descriptor, where the claim has the task unattached. The \<open>kcov_remote_stop\<close>
  that ends the window then dereferences the \<open>NULL\<close> area.
\<close>

theorem remote_start_alloc_failure:
  assumes un: "kcov (tasks s t) = None"
    and na: "kcov_area (tasks s t) = None"
    and fd: "kcov_remote_find s handle = Some (h, kp)"
    and k: "kcovs s kp = Some k"
    and fl: "find (\<lambda>area. snd area = k_remote_size k) (kcov_remote_areas s) = None"
    and rc: "k_refcount k \<noteq> 0"
  shows "kcov_remote_start True t None handle s
           = Some (s\<lparr>tasks := (tasks s)(t := (tasks s t)\<lparr>kcov := Some kp\<rparr>)\<rparr>)
       \<and> kcov_remote_stop t (s\<lparr>tasks := (tasks s)(t := (tasks s t)\<lparr>kcov := Some kp\<rparr>)\<rparr>) = None"
proof -
  let ?s' = "s\<lparr>tasks := (tasks s)(t := (tasks s t)\<lparr>kcov := Some kp\<rparr>)\<rparr>"
  have kk: "(kcovs s)(kp \<mapsto> k\<lparr>k_refcount := k_refcount k + 1 - 1\<rparr>) = kcovs s"
    using k by (simp add: map_upd_triv)
  have eq: "s\<lparr>kcovs := (kcovs s)(kp \<mapsto> k\<lparr>k_refcount := k_refcount k + 1\<rparr>),
              tasks := (tasks s)(t := (tasks s t)\<lparr>kcov := Some kp\<rparr>),
              kcovs := (kcovs s)(kp \<mapsto> k\<lparr>k_refcount := k_refcount k + 1 - 1\<rparr>)\<rparr> = ?s'"
    using kk by (cases s) simp
  have start: "kcov_remote_start True t None handle s = Some ?s'"
    using un fd k fl rc eq
    by (simp add: kcov_remote_start_def kcov_get_def kcov_remote_area_get_def kcov_put_def Let_def)
  have stop: "kcov_remote_stop t ?s' = None"
    using na k kcov_move_area_null_src [of "k_mode k" "k_area k" "k_size k"]
    by (auto simp: kcov_remote_stop_def kcov_stop_def Let_def kcov_remote_area_put_def
        Option.bind_eq_None_conv)
  show ?thesis using start stop by simp
qed

text \<open>Task 2 starts a window on the handle of \<open>remote_state\<close>.\<close>

theorem remote_start_alloc_failure_witness:
  "kcov (tasks remote_state 2) = None
   \<and> kcov_remote_find remote_state 0x42 = Some (0x42, 0)
   \<and> kcov_remote_start True 2 None 0x42 remote_state = Some start_failed_state
   \<and> kcov (tasks start_failed_state 2) = Some 0
   \<and> kcovs start_failed_state = kcovs remote_state
   \<and> kcov_remote_stop 2 start_failed_state = None"
proof -
  let ?k = "\<lparr>k_refcount = 2, k_mode = KCOV_MODE_TRACE_PC, k_size = 4,
                       k_area = Some 0, k_t = Some 1, k_remote = True,
                       k_remote_size = 4, k_sequence = 1\<rparr>"
  have h1: "kcov (tasks remote_state 2) = None" by (simp add: remote_state_def idle_task_def)
  have h2: "kcov_area (tasks remote_state 2) = None" by (simp add: remote_state_def idle_task_def)
  have h3: "kcov_remote_find remote_state 0x42 = Some (0x42, 0)"
    by (simp add: remote_state_def kcov_remote_find_def)
  have h4: "kcovs remote_state 0 = Some ?k" by (simp add: remote_state_def)
  have h5: "find (\<lambda>area. snd area = k_remote_size ?k) (kcov_remote_areas remote_state) = None"
    by (simp add: remote_state_def)
  have h6: "k_refcount ?k \<noteq> 0" by simp
  have st: "remote_state\<lparr>tasks := (tasks remote_state)(2 := (tasks remote_state 2)\<lparr>kcov := Some 0\<rparr>)\<rparr>
              = start_failed_state"
    by (simp add: remote_state_def start_failed_state_def)
  have a: "kcov (tasks start_failed_state 2) = Some 0" by (simp add: start_failed_state_def)
  have b: "kcovs start_failed_state = kcovs remote_state" by (simp add: start_failed_state_def)
  note t = remote_start_alloc_failure [OF h1 h2 h3 h4 h5 h6]
  show ?thesis using h1 h3 t st a b by simp
qed

subsection \<open>The comparison sink\<close>

text \<open>While the byte arithmetic of \<open>write_comp_data\<close> does not wrap, the record is
  appended exactly when it fits.\<close>

lemma write_comp_data_in_range:
  assumes md: "kcov_mode (tasks s cur) = KCOV_MODE_TRACE_CMP"
    and ar: "kcov_area (tasks s cur) = Some a"
    and bm: "mem s a = Some buf"
    and len: "length buf = unat (kcov_size (tasks s cur))"
    and ne: "buf \<noteq> []"
    and nowrap: "(1 + (unat (buf ! 0) + 1) * 4) * 8 < (2 :: nat) ^ 64"
  shows "write_comp_data cfg True cur type arg1 arg2 ip s =
     Some (if (1 + (unat (buf ! 0) + 1) * 4) * 8 \<le> length buf * 8
           then s\<lparr>mem := (mem s)(a \<mapsto>
                  buf[1 + 4 * unat (buf ! 0) := type,
                      1 + 4 * unat (buf ! 0) + 1 := arg1,
                      1 + 4 * unat (buf ! 0) + 2 := arg2,
                      1 + 4 * unat (buf ! 0) + 3 := canonicalize_ip cfg ip,
                      0 := buf ! 0 + 1])\<rparr>
           else s)"
proof -
  let ?c = "buf ! 0"
  let ?n = "unat ?c"
  let ?N = "kcov_size (tasks s cur)"
  have N32: "unat ?N < 2 ^ 32" using unsigned_less [of ?N] by simp
  have mp: "unat (ucast ?N * 8 :: u64) = unat ?N * 8"
    using N32 by (simp add: unat_word_ariths unat_ucast_u32_u64)
  have c4: "unat (?c * 4) = ?n * 4"
    using nowrap by (simp add: unat_word_ariths)
  have si: "unat (1 + ?c * 4) = 1 + ?n * 4"
    using nowrap c4 by (simp add: unat_word_ariths)
  have si1: "unat (1 + ?c * 4 + 1) = 1 + ?n * 4 + 1"
    using nowrap si by (simp add: unat_word_ariths)
  have si2: "unat (1 + ?c * 4 + 2) = 1 + ?n * 4 + 2"
    using nowrap si by (simp add: unat_word_ariths)
  have si3: "unat (1 + ?c * 4 + 3) = 1 + ?n * 4 + 3"
    using nowrap si by (simp add: unat_word_ariths)
  have si4: "unat (1 + ?c * 4 + 4) = 1 + ?n * 4 + 4"
    using nowrap si by (simp add: unat_word_ariths)
  have ep: "unat ((1 + ?c * 4 + 4) * 8) = (1 + ?n * 4 + 4) * 8"
    using nowrap si4 by (simp add: unat_word_ariths)
  have test: "((1 + ?c * 4 + 4) * 8 \<le> (ucast ?N * 8 :: u64))
                = ((1 + (?n + 1) * 4) * 8 \<le> length buf * 8)"
    using ep mp len by (simp add: word_le_nat_alt)
  show ?thesis
  proof (cases "(1 + (?n + 1) * 4) * 8 \<le> length buf * 8")
    case True
    then have fit: "1 + ?n * 4 + 3 < length buf" by simp
    show ?thesis
      using md ar bm ne True test fit si si1 si2 si3
      by (simp add: write_comp_data_def check_kcov_mode_def Let_def area_read_def area_write_def
          KCOV_WORDS_PER_CMP_def sizeof_long_def sizeof_u64_def mult.commute)
  next
    case False
    then show ?thesis
      using md ar bm ne test
      by (simp add: write_comp_data_def check_kcov_mode_def Let_def area_read_def area_write_def
          KCOV_WORDS_PER_CMP_def sizeof_long_def sizeof_u64_def)
  qed
qed

text \<open>From any count, calls that all fit append their records in order.\<close>

lemma write_comp_data_calls_buffer:
  assumes "kcov_mode (tasks s cur) = KCOV_MODE_TRACE_CMP"
    and "kcov_area (tasks s cur) = Some a"
    and "mem s a = Some buf"
    and "length buf = unat (kcov_size (tasks s cur))"
    and "1 + 4 * (unat (buf ! 0) + length rs) \<le> length buf"
  shows "\<exists>buf'. write_comp_data_calls cfg cur rs s = Some (s\<lparr>mem := (mem s)(a \<mapsto> buf')\<rparr>)
           \<and> length buf' = length buf
           \<and> unat (buf' ! 0) = unat (buf ! 0) + length rs
           \<and> (\<forall>i. 1 \<le> i \<and> i < 1 + 4 * unat (buf ! 0) \<longrightarrow> buf' ! i = buf ! i)
           \<and> take (4 * length rs) (drop (1 + 4 * unat (buf ! 0)) buf')
                = concat (map (cmp_record cfg) rs)"
  using assms
proof (induction rs arbitrary: s buf)
  case Nil
  have "(mem s)(a \<mapsto> buf) = mem s"
    using Nil.prems(3) by (rule map_upd_triv)
  then have r: "write_comp_data_calls cfg cur [] s = Some (s\<lparr>mem := (mem s)(a \<mapsto> buf)\<rparr>)"
    by simp
  have c: "unat (buf ! 0) = unat (buf ! 0) + length ([] :: (u64 \<times> u64 \<times> u64 \<times> u64) list)" by simp
  have t: "take (4 * length ([] :: (u64 \<times> u64 \<times> u64 \<times> u64) list)) (drop (1 + 4 * unat (buf ! 0)) buf)
             = concat (map (cmp_record cfg) [])" by simp
  show ?case using r c t by blast
next
  case (Cons r rs)
  obtain type arg1 arg2 ip where r: "r = (type, arg1, arg2, ip)" by (cases r) auto
  let ?n = "unat (buf ! 0)"
  let ?N = "kcov_size (tasks s cur)"
  have N32: "length buf < 2 ^ 32" using unsigned_less [of ?N] Cons.prems(4) by simp
  have ne: "buf \<noteq> []" using Cons.prems(5) by auto
  have fit: "(1 + (?n + 1) * 4) * 8 \<le> length buf * 8" using Cons.prems(5) by simp
  have nowrap: "(1 + (?n + 1) * 4) * 8 < (2 :: nat) ^ 64" using fit N32 by simp
  let ?buf1 = "buf[1 + 4 * ?n := type, 1 + 4 * ?n + 1 := arg1, 1 + 4 * ?n + 2 := arg2,
                   1 + 4 * ?n + 3 := canonicalize_ip cfg ip, 0 := buf ! 0 + 1]"
  let ?s1 = "s\<lparr>mem := (mem s)(a \<mapsto> ?buf1)\<rparr>"
  have step: "write_comp_data cfg True cur type arg1 arg2 ip s = Some ?s1"
    using write_comp_data_in_range [OF Cons.prems(1-4) ne nowrap, of cfg type arg1 arg2 ip] fit
    by simp
  have c1: "unat (?buf1 ! 0) = ?n + 1"
  proof -
    have "?buf1 ! 0 = buf ! 0 + 1" using ne by simp
    moreover have "unat (buf ! 0 + 1) = ?n + 1" using nowrap by (simp add: unat_word_ariths)
    ultimately show ?thesis by simp
  qed
  have p1: "kcov_mode (tasks ?s1 cur) = KCOV_MODE_TRACE_CMP" using Cons.prems(1) by simp
  have p2: "kcov_area (tasks ?s1 cur) = Some a" using Cons.prems(2) by simp
  have p3: "mem ?s1 a = Some ?buf1" by simp
  have p4: "length ?buf1 = unat (kcov_size (tasks ?s1 cur))" using Cons.prems(4) by simp
  have p5: "1 + 4 * (unat (?buf1 ! 0) + length rs) \<le> length ?buf1"
    using c1 Cons.prems(5) by simp
  from Cons.IH [OF p1 p2 p3 p4 p5] obtain buf' where
    run: "write_comp_data_calls cfg cur rs ?s1 = Some (?s1\<lparr>mem := (mem ?s1)(a \<mapsto> buf')\<rparr>)"
    and l: "length buf' = length ?buf1"
    and c: "unat (buf' ! 0) = unat (?buf1 ! 0) + length rs"
    and old: "\<forall>i. 1 \<le> i \<and> i < 1 + 4 * unat (?buf1 ! 0) \<longrightarrow> buf' ! i = ?buf1 ! i"
    and new: "take (4 * length rs) (drop (1 + 4 * unat (?buf1 ! 0)) buf')
                = concat (map (cmp_record cfg) rs)"
    by blast
  have run': "write_comp_data_calls cfg cur (r # rs) s = Some (s\<lparr>mem := (mem s)(a \<mapsto> buf')\<rparr>)"
    using step run r by simp
  have l': "length buf' = length buf" using l by simp
  have c': "unat (buf' ! 0) = ?n + length (r # rs)" using c c1 by simp
  have old': "\<forall>i. 1 \<le> i \<and> i < 1 + 4 * ?n \<longrightarrow> buf' ! i = buf ! i"
  proof (intro allI impI)
    fix i assume i: "1 \<le> i \<and> i < 1 + 4 * ?n"
    then have "buf' ! i = ?buf1 ! i" using old c1 by simp
    also have "\<dots> = buf ! i" using i by simp
    finally show "buf' ! i = buf ! i" .
  qed
  have w0: "buf' ! (1 + 4 * ?n) = type"
  proof -
    have "buf' ! (1 + 4 * ?n) = ?buf1 ! (1 + 4 * ?n)" using old c1 by simp
    then show ?thesis using fit by simp
  qed
  have w1: "buf' ! (1 + 4 * ?n + 1) = arg1"
  proof -
    have "buf' ! (1 + 4 * ?n + 1) = ?buf1 ! (1 + 4 * ?n + 1)" using old c1 by simp
    then show ?thesis using fit by simp
  qed
  have w2: "buf' ! (1 + 4 * ?n + 2) = arg2"
  proof -
    have "buf' ! (1 + 4 * ?n + 2) = ?buf1 ! (1 + 4 * ?n + 2)" using old c1 by simp
    then show ?thesis using fit by simp
  qed
  have w3: "buf' ! (1 + 4 * ?n + 3) = canonicalize_ip cfg ip"
  proof -
    have "buf' ! (1 + 4 * ?n + 3) = ?buf1 ! (1 + 4 * ?n + 3)" using old c1 by simp
    then show ?thesis using fit by simp
  qed
  have head: "take 4 (drop (1 + 4 * ?n) buf') = cmp_record cfg r"
  proof (rule nth_equalityI)
    show "length (take 4 (drop (1 + 4 * ?n) buf')) = length (cmp_record cfg r)"
      using l' fit by (simp add: cmp_record_def r)
  next
    fix i assume "i < length (take 4 (drop (1 + 4 * ?n) buf'))"
    then have i: "i < 4" by simp
    have le: "1 + 4 * ?n + i \<le> length buf'" using i l' fit by simp
    from i consider "i = 0" | "i = 1" | "i = 2" | "i = 3" by linarith
    then show "take 4 (drop (1 + 4 * ?n) buf') ! i = cmp_record cfg r ! i"
    proof cases
      case 1 then show ?thesis using w0 l' fit by (simp add: cmp_record_def r)
    next
      case 2 then show ?thesis using w1 l' fit by (simp add: cmp_record_def r)
    next
      case 3 then show ?thesis using w2 l' fit by (simp add: cmp_record_def r)
    next
      case 4 then show ?thesis using w3 l' fit by (simp add: cmp_record_def r)
    qed
  qed
  have new': "take (4 * length (r # rs)) (drop (1 + 4 * ?n) buf')
                = concat (map (cmp_record cfg) (r # rs))"
  proof -
    have "take (4 * length (r # rs)) (drop (1 + 4 * ?n) buf')
            = take (4 + 4 * length rs) (drop (1 + 4 * ?n) buf')" by simp
    also have "\<dots> = take 4 (drop (1 + 4 * ?n) buf')
                     @ take (4 * length rs) (drop 4 (drop (1 + 4 * ?n) buf'))"
      by (rule take_add)
    also have "drop 4 (drop (1 + 4 * ?n) buf') = drop (1 + 4 * unat (?buf1 ! 0)) buf'"
      using c1 by (simp add: add.commute)
    finally show ?thesis using head new by simp
  qed
  show ?case using run' l' c' old' new' by blast
qed

text \<open>
  Claim C7 on the code: with the count word at \<open>2 ^ 62\<close> the product
  \<open>count * KCOV_WORDS_PER_CMP\<close> wraps to 0. The capacity test of the claim fails
  for this count, yet the sink writes the record to words 1 to 4 (not to
  \<open>1 + 4 * count\<close>) and advances the count. With the count word at
  \<open>2 ^ 59 - 1\<close> the test passes as well and the first store is outside the area.
\<close>

theorem cmp_sink_count_wraps:
  "area_read cmp_wrapped_state (Some 0) 0 = Some 0x4000000000000000
   \<and> \<not> (1 + (unat (0x4000000000000000 :: u64) + 1) * 4) * 8 \<le> 5 * (8 :: nat)
   \<and> sanitizer_cov_trace_cmp8 cfg0 True 1 0xAA 0xBB 0x1010 cmp_wrapped_state
       = Some (cmp_wrapped_state\<lparr>mem := [0 \<mapsto> [0x4000000000000001, 6, 0xAA, 0xBB, 0x10]]\<rparr>)
   \<and> sanitizer_cov_trace_cmp8 cfg0 True 1 0xAA 0xBB 0x1010
         (cmp_wrapped_state\<lparr>mem := [0 \<mapsto> [0x07FFFFFFFFFFFFFF, 0, 0, 0, 0]]\<rparr>)
       = None"
  by (simp add: cmp_wrapped_state_def enabled_state_def sanitizer_cov_trace_cmp8_def
      write_comp_data_def check_kcov_mode_def canonicalize_ip_def cfg0_def area_read_def
      area_write_def Let_def KCOV_CMP_SIZE_def KCOV_WORDS_PER_CMP_def sizeof_long_def sizeof_u64_def)

theorem cmp_sink_count_wraps_witness:
  "\<exists>s'. sanitizer_cov_trace_cmp8 cfg0 True 1 0xAA 0xBB 0x1010 cmp_wrapped_state = Some s'
        \<and> mem s' 0 \<noteq> mem cmp_wrapped_state 0"
  using cmp_sink_count_wraps by (simp add: cmp_wrapped_state_def)

subsection \<open>The merge\<close>

lemma move_entries_words:
  fixes c :: u32 and ew :: nat and dst_len src_len E :: u64
  assumes ne: "da \<noteq> sa"
    and dm: "mem s da = Some dst"
    and sm: "mem s sa = Some src"
    and len: "length dst = unat c"
    and c1: "1 \<le> unat c"
    and E: "unat E = 8 * ew"
    and ew0: "0 < ew"
    and ew4: "ew \<le> 4"
    and d: "unat dst_len \<le> (unat c - 1) div ew"
    and sn: "1 + unat src_len * ew \<le> length src"
    and sl: "length src < 2 ^ 32"
    and m: "m = min (unat c - 1 - ew * unat dst_len) (ew * unat src_len)"
  shows "move_entries (Some da) c (Some sa) dst_len src_len 8 E s =
           Some (s\<lparr>mem := (mem s)(da \<mapsto>
             (take (1 + ew * unat dst_len) dst @ take m (drop 1 src)
                @ drop (1 + ew * unat dst_len + m) dst)
               [0 := dst_len + of_nat (m div ew)])\<rparr>)"
proof -
  let ?C = "unat c"
  let ?d = "unat dst_len"
  let ?n = "unat src_len"
  have C32: "?C < 2 ^ 32" using unsigned_less [of c] by simp
  have uc: "unat (ucast c :: u64) = ?C" by (rule unat_ucast_u32_u64)
  have total: "unat (ucast c * 8 :: u64) = ?C * 8"
    using C32 uc by (simp add: unat_word_ariths)
  have ge8: "(8 :: u64) \<le> ucast c * 8"
    using total c1 by (simp add: word_le_nat_alt)
  have A1: "unat (ucast c * 8 - 8 :: u64) = ?C * 8 - 8"
    using unat_sub [OF ge8] total by simp
  have A3: "unat ((ucast c * 8 - 8) div E) = (?C - 1) div ew"
  proof -
    have "unat ((ucast c * 8 - 8) div E) = (?C * 8 - 8) div (8 * ew)"
      by (simp add: unat_div A1 E)
    also have "?C * 8 - 8 = 8 * (?C - 1)" by simp
    also have "(8 * (?C - 1)) div (8 * ew) = (?C - 1) div ew" by simp
    finally show ?thesis .
  qed
  have edle: "ew * ?d \<le> ?C - 1"
  proof -
    have "ew * ?d \<le> ew * ((?C - 1) div ew)" using d by simp
    also have "\<dots> \<le> ?C - 1" by simp
    finally show ?thesis .
  qed
  have A4: "\<not> dst_len > (ucast c * 8 - 8) div E"
    using d A3 by (simp add: word_less_nat_alt)
  have dle: "?d \<le> ew * ?d" using ew0 by simp
  have dsmall: "?d < 2 ^ 32" using edle dle C32 by linarith
  have A5: "unat (dst_len * E) = 8 * ew * ?d"
  proof -
    have "ew * ?d < 2 ^ 32" using edle C32 by linarith
    then have "?d * (8 * ew) < 2 ^ 64" by simp
    then have "unat dst_len * unat E < 2 ^ LENGTH(64)" using E by simp
    then show ?thesis using E by (simp add: unat_mult_lem [THEN iffD1])
  qed
  have A6: "unat (8 + dst_len * E) = 8 + 8 * ew * ?d"
  proof -
    have "ew * ?d < 2 ^ 32" using edle C32 by linarith
    then have "unat (8 :: u64) + unat (dst_len * E) < 2 ^ LENGTH(64)" using A5 by simp
    then show ?thesis using A5 by (simp add: unat_add_lem [THEN iffD1])
  qed
  have occ_le: "8 + dst_len * E \<le> ucast c * 8"
    using A6 total edle c1 by (simp add: word_le_nat_alt)
  have A7: "unat (ucast c * 8 - (8 + dst_len * E)) = 8 * (?C - 1 - ew * ?d)"
    using unat_sub [OF occ_le] total A6 by simp
  have nsmall: "ew * ?n < 2 ^ 32" using sn sl by (simp add: mult.commute)
  have A8: "unat (src_len * E) = 8 * (ew * ?n)"
  proof -
    have "?n * (8 * ew) < 2 ^ 64" using nsmall by simp
    then have "unat src_len * unat E < 2 ^ LENGTH(64)" using E by simp
    then show ?thesis using E by (simp add: unat_mult_lem [THEN iffD1])
  qed
  let ?bytes = "min (ucast c * 8 - (8 + dst_len * E)) (src_len * E)"
  have A9: "unat ?bytes = 8 * m"
    using A7 A8 m by (simp add: unat_min_word)
  have A11: "unat (?bytes div E) = m div ew"
    by (simp add: unat_div A9 E)
  have A12: "?bytes div E = of_nat (m div ew)"
  proof -
    have "?bytes div E = of_nat (unat (?bytes div E))" by simp
    then show ?thesis by (simp only: A11)
  qed
  have mC: "1 + ew * ?d + m \<le> ?C" using m edle c1 by simp
  have mS: "1 + m \<le> length src" using m sn by (simp add: mult.commute)
  have cp: "area_memcpy (Some da) (8 + dst_len * E) (Some sa) 8 ?bytes s =
      Some (s\<lparr>mem := (mem s)(da \<mapsto>
             take (1 + ew * ?d) dst @ take m (drop 1 src) @ drop (1 + ew * ?d + m) dst)\<rparr>)"
    using ne dm sm A6 A9 mC mS len by (simp add: area_memcpy_def)
  have l1: "0 < length (take (1 + ew * ?d) dst @ take m (drop 1 src) @ drop (1 + ew * ?d + m) dst)"
    using len c1 by simp
  show ?thesis
    using A4 cp l1
    by (simp add: move_entries_def sizeof_long_def Let_def area_write_def A12)
qed

text \<open>
  Claim C2. \<open>kcov_move_area\<close> in PC or CMP mode, from a source area holding
  \<open>s\<close> records (its count word, with the records inside the area) into another area
  of \<open>c \<ge> 1\<close> words holding \<open>d\<close> records, \<open>d\<close> within the nominal capacity
  \<open>(c * 8 - 8) div e\<close>, where a record is \<open>ew\<close> words, \<open>e = 8 * ew\<close> bytes:
  one word in PC mode and four in CMP mode. The merge does not fault, changes the
  destination area only, and leaves the count
  \<open>min (d + s) ((c * 8 - 8) div e)\<close>; the records the destination had are kept and
  the records the count gained are the first records of the source, in order. Source
  records beyond the capacity are dropped.
\<close>

theorem kcov_move_area_count:
  fixes c :: u32
  assumes mode: "mode = KCOV_MODE_TRACE_PC \<or> mode = KCOV_MODE_TRACE_CMP"
    and ne: "da \<noteq> sa"
    and dm: "mem s da = Some dst"
    and sm: "mem s sa = Some src"
    and len: "length dst = unat c"
    and c1: "1 \<le> unat c"
    and ew: "ew = (if mode = KCOV_MODE_TRACE_PC then 1 else 4)"
    and d: "unat (dst ! 0) \<le> (unat c * 8 - 8) div (8 * ew)"
    and sn: "1 + unat (src ! 0) * ew \<le> length src"
    and sl: "length src < 2 ^ 32"
  shows "\<exists>dst'. kcov_move_area mode (Some da) c (Some sa) s
                  = Some (s\<lparr>mem := (mem s)(da \<mapsto> dst')\<rparr>)
           \<and> length dst' = length dst
           \<and> unat (dst' ! 0)
               = min (unat (dst ! 0) + unat (src ! 0)) ((unat c * 8 - 8) div (8 * ew))
           \<and> (\<forall>i. 1 \<le> i \<and> i < 1 + unat (dst ! 0) * ew \<longrightarrow> dst' ! i = dst ! i)
           \<and> (\<forall>j. j < (unat (dst' ! 0) - unat (dst ! 0)) * ew \<longrightarrow>
                  dst' ! (1 + unat (dst ! 0) * ew + j) = src ! (1 + j))"
proof -
  let ?C = "unat c"
  let ?d = "unat (dst ! 0)"
  let ?n = "unat (src ! 0)"
  define E :: u64 where "E = (if mode = KCOV_MODE_TRACE_PC then 8 else 32)"
  define m where "m = min (?C - 1 - ew * ?d) (ew * ?n)"
  let ?pre = "take (1 + ew * ?d) dst"
  let ?mid = "take m (drop 1 src)"
  let ?post = "drop (1 + ew * ?d + m) dst"
  let ?dst' = "(?pre @ ?mid @ ?post)[0 := dst ! 0 + of_nat (m div ew)]"
  have ew0: "0 < ew" and ew4: "ew \<le> 4" using ew by auto
  have E: "unat E = 8 * ew" using ew by (simp add: E_def)
  have C32: "?C < 2 ^ 32" using unsigned_less [of c] by simp
  have cap: "(?C * 8 - 8) div (8 * ew) = (?C - 1) div ew"
  proof -
    have "?C * 8 - 8 = 8 * (?C - 1)" by simp
    then show ?thesis by simp
  qed
  have d': "?d \<le> (?C - 1) div ew" using d cap by simp
  have edle: "ew * ?d \<le> ?C - 1"
  proof -
    have "ew * ?d \<le> ew * ((?C - 1) div ew)" using d' by simp
    also have "\<dots> \<le> ?C - 1" by simp
    finally show ?thesis .
  qed
  have dne: "dst \<noteq> []" using len c1 by auto
  have sne: "src \<noteq> []" using sn by auto
  have rd: "area_read s (Some da) 0 = Some (dst ! 0)" using dm dne by (simp add: area_read_def)
  have rs: "area_read s (Some sa) 0 = Some (src ! 0)" using sm sne by (simp add: area_read_def)
  have me: "move_entries (Some da) c (Some sa) (dst ! 0) (src ! 0) 8 E s
              = Some (s\<lparr>mem := (mem s)(da \<mapsto> ?dst')\<rparr>)"
    by (rule move_entries_words [OF ne dm sm len c1 E ew0 ew4 d' sn sl m_def])
  have run: "kcov_move_area mode (Some da) c (Some sa) s = Some (s\<lparr>mem := (mem s)(da \<mapsto> ?dst')\<rparr>)"
    using mode rd rs me
    by (auto simp: kcov_move_area_def E_def sizeof_long_def sizeof_u64_def KCOV_WORDS_PER_CMP_def)
  have mC: "1 + ew * ?d + m \<le> ?C" using m_def edle c1 by simp
  have mS: "1 + m \<le> length src" using m_def sn by (simp add: mult.commute)
  have lpre: "length ?pre = 1 + ew * ?d" using mC len by simp
  have lmid: "length ?mid = m" using mS by simp
  have l: "length ?dst' = length dst" using mC len lpre lmid by simp
  have mdiv: "m div ew = min ((?C - 1) div ew - ?d) ?n"
  proof -
    have a: "m div ew = min ((?C - 1 - ew * ?d) div ew) ((ew * ?n) div ew)"
      by (simp only: m_def min_div_nat)
    have b: "(?C - 1 - ew * ?d) div ew = (?C - 1) div ew - ?d"
      by (rule nat_sub_mult_div [OF ew0 edle])
    have c: "(ew * ?n) div ew = ?n" using ew0 by simp
    show ?thesis by (simp only: a b c)
  qed
  have moved_le: "m div ew \<le> (?C - 1) div ew - ?d" using mdiv by simp
  have cnt: "unat (?dst' ! 0) = ?d + m div ew"
  proof -
    have z: "?dst' ! 0 = dst ! 0 + of_nat (m div ew)" using lpre by simp
    have a: "?d + m div ew \<le> (?C - 1) div ew" using moved_le d' by simp
    have "(?C - 1) div ew \<le> ?C" by (meson diff_le_self div_le_dividend le_trans)
    then have b: "?d + m div ew < 2 ^ 32" using a C32 by linarith
    then have "m div ew < 2 ^ 64" by simp
    then have u: "unat (of_nat (m div ew) :: u64) = m div ew" by (simp add: unat_of_nat)
    have "unat (dst ! 0) + unat (of_nat (m div ew) :: u64) < 2 ^ LENGTH(64)" using u b by simp
    then show ?thesis using z u by (simp add: unat_add_lem [THEN iffD1])
  qed
  have arith: "?d + min ((?C - 1) div ew - ?d) ?n = min (?d + ?n) ((?C - 1) div ew)"
    using d' by linarith
  have cnt': "unat (?dst' ! 0) = min (?d + ?n) ((?C * 8 - 8) div (8 * ew))"
  proof -
    have "unat (?dst' ! 0) = ?d + m div ew" by (rule cnt)
    also have "\<dots> = ?d + min ((?C - 1) div ew - ?d) ?n" by (simp only: mdiv)
    also have "\<dots> = min (?d + ?n) ((?C - 1) div ew)" by (rule arith)
    also have "\<dots> = min (?d + ?n) ((?C * 8 - 8) div (8 * ew))" by (simp only: cap)
    finally show ?thesis .
  qed
  have old: "\<forall>i. 1 \<le> i \<and> i < 1 + ?d * ew \<longrightarrow> ?dst' ! i = dst ! i"
  proof (intro allI impI)
    fix i assume i: "1 \<le> i \<and> i < 1 + ?d * ew"
    then have "i < length ?pre" using lpre by (simp add: mult.commute)
    then have "(?pre @ ?mid @ ?post) ! i = ?pre ! i" by (simp only: nth_append if_True)
    also have "\<dots> = dst ! i" using i by (simp add: mult.commute)
    finally show "?dst' ! i = dst ! i" using i by simp
  qed
  have new: "\<forall>j. j < (unat (?dst' ! 0) - ?d) * ew \<longrightarrow>
                  ?dst' ! (1 + ?d * ew + j) = src ! (1 + j)"
  proof (intro allI impI)
    fix j assume "j < (unat (?dst' ! 0) - ?d) * ew"
    then have "j < (m div ew) * ew" using cnt by simp
    also have "\<dots> \<le> m" by simp
    finally have j: "j < m" .
    have "(?pre @ ?mid @ ?post) ! (length ?pre + j) = (?mid @ ?post) ! j"
      by (rule nth_append_length_plus)
    also have "\<dots> = ?mid ! j" using j lmid by (simp add: nth_append)
    also have "\<dots> = src ! (1 + j)" using j mS by simp
    finally have "(?pre @ ?mid @ ?post) ! (1 + ?d * ew + j) = src ! (1 + j)"
      using lpre by (simp add: mult.commute)
    then show "?dst' ! (1 + ?d * ew + j) = src ! (1 + j)" by simp
  qed
  show ?thesis using run l cnt' old new by blast
qed

theorem kcov_move_area_count_witness:
  "mem merge_state 0 = Some [1, 0x11, 0, 0]
   \<and> mem merge_state 1 = Some [3, 0x10, 0x20, 0x30]
   \<and> (\<exists>dst'. kcov_move_area KCOV_MODE_TRACE_PC (Some 0) 4 (Some 1) merge_state
                  = Some (merge_state\<lparr>mem := (mem merge_state)(0 \<mapsto> dst')\<rparr>)
           \<and> length dst' = 4
           \<and> unat (dst' ! 0) = 3
           \<and> dst' ! 1 = 0x11
           \<and> dst' ! 2 = 0x10
           \<and> dst' ! 3 = 0x20)"
proof -
  let ?dst = "[1, 0x11, 0, 0] :: u64 list"
  let ?src = "[3, 0x10, 0x20, 0x30] :: u64 list"
  have h1: "KCOV_MODE_TRACE_PC = KCOV_MODE_TRACE_PC \<or> KCOV_MODE_TRACE_PC = KCOV_MODE_TRACE_CMP"
    by simp
  have h2: "(0 :: nat) \<noteq> 1" by simp
  have h3: "mem merge_state 0 = Some ?dst" by (simp add: merge_state_def)
  have h4: "mem merge_state 1 = Some ?src" by (simp add: merge_state_def)
  have h5: "length ?dst = unat (4 :: u32)" by simp
  have h6: "1 \<le> unat (4 :: u32)" by simp
  have h7: "(1 :: nat) = (if KCOV_MODE_TRACE_PC = KCOV_MODE_TRACE_PC then 1 else 4)" by simp
  have h8: "unat (?dst ! 0) \<le> (unat (4 :: u32) * 8 - 8) div (8 * 1)" by simp
  have h9: "1 + unat (?src ! 0) * 1 \<le> length ?src" by simp
  have h10: "length ?src < 2 ^ 32" by simp
  from kcov_move_area_count [OF h1 h2 h3 h4 h5 h6 h7 h8 h9 h10]
  obtain dst' where
    r: "kcov_move_area KCOV_MODE_TRACE_PC (Some 0) 4 (Some 1) merge_state
          = Some (merge_state\<lparr>mem := (mem merge_state)(0 \<mapsto> dst')\<rparr>)"
    and l: "length dst' = length ?dst"
    and c: "unat (dst' ! 0) = min (unat (?dst ! 0) + unat (?src ! 0)) ((unat (4 :: u32) * 8 - 8) div (8 * 1))"
    and old: "\<forall>i. 1 \<le> i \<and> i < 1 + unat (?dst ! 0) * 1 \<longrightarrow> dst' ! i = ?dst ! i"
    and new: "\<forall>j. j < (unat (dst' ! 0) - unat (?dst ! 0)) * 1 \<longrightarrow>
                  dst' ! (1 + unat (?dst ! 0) * 1 + j) = ?src ! (1 + j)"
    by blast
  have c3: "unat (dst' ! 0) = 3" using c by simp
  have o1: "dst' ! 1 = 0x11" using old [rule_format, of 1] by simp
  have n0: "dst' ! 2 = 0x10" using new [rule_format, of 0] c3 by (simp add: numeral_2_eq_2)
  have n1: "dst' ! 3 = 0x20" using new [rule_format, of 1] c3 by (simp add: numeral_3_eq_3)
  have l4: "length dst' = 4" using l by simp
  show ?thesis using h3 h4 r l4 c3 o1 n0 n1 by blast
qed

subsection \<open>A window invalidated by KCOV_DISABLE\<close>

text \<open>A window whose snapshot is stale, or whose descriptor is no longer remote, ends
  without a merge: no area changes.\<close>

lemma remote_stop_stale_window:
  assumes "kcov (tasks s e) = Some kp"
    and "kcovs s kp = Some k"
    and "kcov_sequence (tasks s e) \<noteq> k_sequence k \<or> \<not> k_remote k"
    and "kcov_area (tasks s e) = Some sa"
    and "mem s sa \<noteq> None"
    and "k_refcount k \<noteq> 1"
  shows "\<exists>s'. kcov_remote_stop e s = Some s' \<and> mem s' = mem s"
  using assms
  by (auto simp: kcov_remote_stop_def kcov_stop_def Let_def kcov_remote_area_put_def kcov_put_def)




















end
